theory Spec2Isabelle
  imports Main "HOL-Library.Log_Nat" "HOL-Library.Sublist" "HOL-Library.Multiset"
begin

section \<open>JavaScript strings\<close>

text \<open>
  A JavaScript string is modelled as a HOL \<^typ>\<open>string\<close>; a \<^typ>\<open>char\<close> stands for
  the code point of the same number (0 to 255, the Latin-1 range). Addresses, identifiers
  and decimal amounts of the subgraph are ASCII.

  \<^verbatim>\<open>String.prototype.toLowerCase\<close> maps the upper-case letters of that range (A to Z,
  and U+00C0 to U+00DE except the multiplication sign U+00D7) to the letter 32 code
  points above, and leaves every other character alone.
\<close>

definition isUpperCase :: "char \<Rightarrow> bool" where
  "isUpperCase c =
     (let n = (of_char c :: nat)
      in (65 \<le> n \<and> n \<le> 90) \<or> (192 \<le> n \<and> n \<le> 222 \<and> n \<noteq> 215))"

definition lowerChar :: "char \<Rightarrow> char" where
  "lowerChar c = (if isUpperCase c then char_of ((of_char c :: nat) + 32) else c)"

definition toLowerCase :: "string \<Rightarrow> string" where
  "toLowerCase s = map lowerChar s"

text \<open>Two strings match case-insensitively when they agree after lower-casing.\<close>

definition matchesIgnoringCase :: "string \<Rightarrow> string \<Rightarrow> bool" where
  "matchesIgnoringCase a b = (toLowerCase a = toLowerCase b)"

section \<open>Data model\<close>

text \<open>
  The entities the GraphQL queries select. A field the scripts guard with
  \<^verbatim>\<open>||\<close> or \<^verbatim>\<open>?.\<close> may be absent or null and is an \<^typ>\<open>'a option\<close>.
\<close>

record token =
  tokenId :: string
  tokenName :: string

record pool =
  poolId :: string
  token0 :: token
  token1 :: token

record position =
  positionId :: "string option"

record snapshot =
  snapshotId :: string
  owner :: string
  pool :: pool
  position :: "position option"
  blockNumber :: string
  timestamp :: string
  liquidity :: "string option"
  depositedToken0 :: "string option"
  depositedToken1 :: "string option"
  withdrawnToken0 :: "string option"
  withdrawnToken1 :: "string option"
  collectedFeesToken0 :: "string option"
  collectedFeesToken1 :: "string option"

section \<open>The owner allow-list\<close>

text \<open>
  \<^verbatim>\<open>FILTER_USERS\<close> is a constant of the script that its header invites the user to edit:
  ``To modify the filter, update the FILTER_USERS array. To show all users, set
  FILTER_USERS to an empty array []''. The filter of \<^verbatim>\<open>displayPositionSnapshots\<close>
  therefore takes the list as an argument:
  \<^verbatim>\<open>snapshots.filter(snapshot => FILTER_USERS.includes(snapshot.owner.toLowerCase()))\<close>.
\<close>

definition FILTER_USERS :: "string list" where
  "FILTER_USERS =
     [''0x06253f963c242f3ac57201ff8298d7e5df3e8c4c'',
      ''0x43395c11f8f81db0cee08dedd2d45c377a955387'']"

definition arrayIncludes :: "string list \<Rightarrow> string \<Rightarrow> bool" where
  "arrayIncludes xs s = (s \<in> set xs)"

definition filteredSnapshots :: "string list \<Rightarrow> snapshot list \<Rightarrow> snapshot list" where
  "filteredSnapshots users snapshots =
     filter (\<lambda>snapshot. arrayIncludes users (toLowerCase (owner snapshot))) snapshots"

text \<open>A snapshot that only fixes the fields a test needs.\<close>

definition noToken :: token where
  "noToken = \<lparr>tokenId = '''', tokenName = ''''\<rparr>"

definition mkSnapshot :: "string \<Rightarrow> string \<Rightarrow> string option \<Rightarrow> snapshot" where
  "mkSnapshot p u i =
     \<lparr>snapshotId = '''', owner = u,
      pool = \<lparr>poolId = p, token0 = noToken, token1 = noToken\<rparr>,
      position = (case i of None \<Rightarrow> None | Some j \<Rightarrow> Some \<lparr>positionId = Some j\<rparr>),
      blockNumber = '''', timestamp = '''', liquidity = None,
      depositedToken0 = None, depositedToken1 = None,
      withdrawnToken0 = None, withdrawnToken1 = None,
      collectedFeesToken0 = None, collectedFeesToken1 = None\<rparr>"

section \<open>JavaScript numbers\<close>

text \<open>
  A Number is an IEEE 754 double: not-a-number, an infinity, or a finite value, which is
  a rational. The two zeros are one value here: the scripts never divide by an amount and
  print both zeros alike.
\<close>

datatype number = NaN | PosInfinity | NegInfinity | Finite rat

definition powInt :: "rat \<Rightarrow> int \<Rightarrow> rat" where
  "powInt b e = (if 0 \<le> e then b ^ nat e else 1 / b ^ nat (- e))"

text \<open>For \<open>0 < a\<close>, the exponent \<open>e\<close> with \<open>2 ^ e \<le> a < 2 ^ (e + 1)\<close>.\<close>

definition floorLog2 :: "rat \<Rightarrow> int" where
  "floorLog2 a =
     (if 1 \<le> a then bitlen \<lfloor>a\<rfloor> - 1
      else let k = bitlen \<lfloor>1 / a\<rfloor> - 1
           in if a = powInt 2 (- k) then - k else - k - 1)"

definition roundHalfEven :: "rat \<Rightarrow> int" where
  "roundHalfEven q =
     (let f = \<lfloor>q\<rfloor>; d = q - of_int f
      in if d < 1 / 2 then f else if 1 / 2 < d then f + 1
         else if even f then f else f + 1)"

text \<open>
  The Number value of a rational: round to nearest, ties to even, with 53 significant
  bits and subnormals below \<open>2 ^ - 1022\<close>. With \<open>2 ^ e \<le> a < 2 ^ (e + 1)\<close> the
  significand \<open>m\<close> is at most \<open>2 ^ 53\<close>, so the rounded magnitude \<open>m * 2 ^ (e - 52)\<close>
  reaches \<open>2 ^ 1024\<close>, where the value overflows to an infinity, exactly when
  \<open>1024 \<le> e\<close>, or \<open>e = 1023\<close> and \<open>m = 2 ^ 53\<close>.
\<close>

definition roundDouble :: "rat \<Rightarrow> number" where
  "roundDouble q =
     (if q = 0 then Finite 0
      else let a = \<bar>q\<bar>;
               e = max (floorLog2 a) (- 1022);
               ulp = powInt 2 (e - 52);
               m = roundHalfEven (a / ulp);
               r = of_int m * ulp
           in if 1024 \<le> e \<or> (e = 1023 \<and> 2 ^ 53 \<le> m)
              then (if q < 0 then NegInfinity else PosInfinity)
              else Finite (if q < 0 then - r else r))"

fun negate :: "number \<Rightarrow> number" where
  "negate NaN = NaN"
| "negate PosInfinity = NegInfinity"
| "negate NegInfinity = PosInfinity"
| "negate (Finite x) = Finite (- x)"

fun add :: "number \<Rightarrow> number \<Rightarrow> number" where
  "add NaN _ = NaN"
| "add _ NaN = NaN"
| "add PosInfinity NegInfinity = NaN"
| "add NegInfinity PosInfinity = NaN"
| "add PosInfinity _ = PosInfinity"
| "add _ PosInfinity = PosInfinity"
| "add NegInfinity _ = NegInfinity"
| "add _ NegInfinity = NegInfinity"
| "add (Finite x) (Finite y) = roundDouble (x + y)"

definition subtract :: "number \<Rightarrow> number \<Rightarrow> number" where
  "subtract a b = add a (negate b)"

text \<open>\<^verbatim>\<open>a > b\<close>, \<^verbatim>\<open>a >= b\<close> and \<^verbatim>\<open>a === b\<close>: false as soon as one side is NaN.\<close>

fun greater :: "number \<Rightarrow> number \<Rightarrow> bool" where
  "greater NaN _ = False"
| "greater _ NaN = False"
| "greater PosInfinity b = (b \<noteq> PosInfinity)"
| "greater NegInfinity _ = False"
| "greater (Finite x) PosInfinity = False"
| "greater (Finite x) NegInfinity = True"
| "greater (Finite x) (Finite y) = (y < x)"

definition strictEquals :: "number \<Rightarrow> number \<Rightarrow> bool" where
  "strictEquals a b = (a \<noteq> NaN \<and> a = b)"

definition greaterEq :: "number \<Rightarrow> number \<Rightarrow> bool" where
  "greaterEq a b = (greater a b \<or> strictEquals a b)"

subsection \<open>Decimal digits\<close>

definition isDigit :: "char \<Rightarrow> bool" where
  "isDigit c = (let n = (of_char c :: int) in 48 \<le> n \<and> n \<le> 57)"

definition digitValue :: "char \<Rightarrow> int" where
  "digitValue c = of_char c - 48"

definition digitChar :: "int \<Rightarrow> char" where
  "digitChar d = char_of (48 + d)"

definition intOfDigits :: "string \<Rightarrow> int" where
  "intOfDigits ds = foldl (\<lambda>a c. 10 * a + digitValue c) 0 ds"

text \<open>The decimal digits of \<open>0 \<le> n\<close>, the most significant first.\<close>

function digitsOf :: "int \<Rightarrow> string" where
  "digitsOf n = (if n < 10 then [digitChar n] else digitsOf (n div 10) @ [digitChar (n mod 10)])"
  by pat_completeness auto
termination
  by (relation "measure nat") auto

declare digitsOf.simps [simp del]

subsection \<open>parseFloat\<close>

text \<open>
  \<^verbatim>\<open>parseFloat(string)\<close> skips leading white space, takes the longest prefix that is a
  \<^verbatim>\<open>StrDecimalLiteral\<close> (an optional sign, then \<^verbatim>\<open>Infinity\<close> or decimal digits with an
  optional fraction and an optional exponent) and returns its Number value, or NaN when
  no prefix is one.
\<close>

definition isWhiteSpace :: "char \<Rightarrow> bool" where
  "isWhiteSpace c = ((of_char c :: nat) \<in> {9, 10, 11, 12, 13, 32, 160})"

text \<open>The sign of a literal: whether it is negative, and the rest.\<close>

fun signPart :: "string \<Rightarrow> bool \<times> string" where
  "signPart [] = (False, [])"
| "signPart (c # cs) =
     (if c = CHR ''-'' then (True, cs) else if c = CHR ''+'' then (False, cs)
      else (False, c # cs))"

text \<open>
  The exponent part at the head of a string: \<^verbatim>\<open>e\<close> or \<^verbatim>\<open>E\<close>, an optional sign and at
  least one digit; without a digit there is no exponent part and the value is 0.
\<close>

fun exponentPart :: "string \<Rightarrow> int" where
  "exponentPart [] = 0"
| "exponentPart (c # cs) =
     (if c = CHR ''e'' \<or> c = CHR ''E'' then
        (let (neg, r) = signPart cs; ds = takeWhile isDigit r
         in if ds = [] then 0
            else if neg then - intOfDigits ds else intOfDigits ds)
      else 0)"

definition parseFloat :: "string \<Rightarrow> number" where
  "parseFloat s =
     (let (neg, u) = signPart (dropWhile isWhiteSpace s)
      in if prefix ''Infinity'' u then (if neg then NegInfinity else PosInfinity)
         else
           let ip = takeWhile isDigit u;
               r = dropWhile isDigit u;
               hasDot = (case r of [] \<Rightarrow> False | c # _ \<Rightarrow> c = CHR ''.'');
               fp = (if hasDot then takeWhile isDigit (tl r) else []);
               rest = (if hasDot then dropWhile isDigit (tl r) else r)
           in if ip = [] \<and> fp = [] then NaN
              else
                let m = of_int (intOfDigits (ip @ fp)) * powInt 10 (exponentPart rest - int (length fp))
                in roundDouble (if neg then - m else m))"

subsection \<open>parseInt, multiplication and dates\<close>

text \<open>
  \<^verbatim>\<open>parseInt(string)\<close> without a radix skips leading white space and a sign, reads
  hexadecimal digits after \<^verbatim>\<open>0x\<close> or \<^verbatim>\<open>0X\<close> and decimal digits otherwise, as many as
  there are, and returns the Number value of that integer, or NaN when there is no
  digit.
\<close>

definition isHexDigit :: "char \<Rightarrow> bool" where
  "isHexDigit c =
     (let n = (of_char c :: int)
      in (48 \<le> n \<and> n \<le> 57) \<or> (65 \<le> n \<and> n \<le> 70) \<or> (97 \<le> n \<and> n \<le> 102))"

definition hexValue :: "char \<Rightarrow> int" where
  "hexValue c =
     (let n = (of_char c :: int)
      in if n \<le> 57 then n - 48 else if n \<le> 70 then n - 55 else n - 87)"

definition intOfHexDigits :: "string \<Rightarrow> int" where
  "intOfHexDigits ds = foldl (\<lambda>a c. 16 * a + hexValue c) 0 ds"

definition parseInt :: "string \<Rightarrow> number" where
  "parseInt s =
     (let (neg, u) = signPart (dropWhile isWhiteSpace s)
      in if take 2 u = ''0x'' \<or> take 2 u = ''0X'' then
           (let z = takeWhile isHexDigit (drop 2 u)
            in if z = [] then NaN
               else roundDouble (of_int (if neg then - intOfHexDigits z else intOfHexDigits z)))
         else
           (let z = takeWhile isDigit u
            in if z = [] then NaN
               else roundDouble (of_int (if neg then - intOfDigits z else intOfDigits z))))"

fun multiply :: "number \<Rightarrow> number \<Rightarrow> number" where
  "multiply NaN _ = NaN"
| "multiply _ NaN = NaN"
| "multiply (Finite x) (Finite y) = roundDouble (x * y)"
| "multiply (Finite x) b = (if x = 0 then NaN else if 0 < x then b else negate b)"
| "multiply a (Finite y) = (if y = 0 then NaN else if 0 < y then a else negate a)"
| "multiply a b = (if a = b then PosInfinity else NegInfinity)"

text \<open>
  \<^verbatim>\<open>new Date(value)\<close> keeps the time value \<^verbatim>\<open>TimeClip(value)\<close>: NaN unless the value
  is finite and within \<open>8.64 * 10 ^ 15\<close> milliseconds of the epoch, and then its integer
  part.
\<close>

definition timeClip :: "number \<Rightarrow> number" where
  "timeClip t =
     (case t of
        Finite x \<Rightarrow>
          if 8640000000000000 < \<bar>x\<bar> then NaN
          else Finite (of_int (if 0 \<le> x then \<lfloor>x\<rfloor> else \<lceil>x\<rceil>))
      | _ \<Rightarrow> NaN)"

subsection \<open>Number to string\<close>

text \<open>For \<open>0 < x\<close>, the \<open>n\<close> with \<open>10 ^ (n - 1) \<le> x < 10 ^ n\<close>.\<close>

definition decimalExponent :: "rat \<Rightarrow> int" where
  "decimalExponent x =
     (if 1 \<le> x then int (length (digitsOf \<lfloor>x\<rfloor>))
      else let l = int (length (digitsOf \<lfloor>1 / x\<rfloor>))
           in if x = powInt 10 (1 - l) then 2 - l else 1 - l)"

text \<open>
  \<^verbatim>\<open>Number::toString\<close> of a finite \<open>0 < x\<close> looks for integers \<open>n\<close>, \<open>k\<close>, \<open>s\<close> with
  \<open>1 \<le> k\<close>, \<open>10 ^ (k - 1) \<le> s < 10 ^ k\<close>, the Number value of \<open>s * 10 ^ (n - k)\<close> equal to
  \<open>x\<close>, and \<open>k\<close> as small as possible. For a given \<open>k\<close> the only multiples of
  \<open>10 ^ (n - k)\<close> that can round to \<open>x\<close> are the two around \<open>x\<close>.
\<close>

definition digitCandidates :: "rat \<Rightarrow> nat \<Rightarrow> (int \<times> int) list" where
  "digitCandidates x k =
     (let n = decimalExponent x;
          v = x / powInt 10 (n - int k);
          lo = \<lfloor>v\<rfloor>;
          hi = \<lceil>v\<rceil>
      in (n, lo) #
         (if hi = lo then [] else if hi = 10 ^ k then [(n + 1, 10 ^ (k - 1))] else [(n, hi)]))"

definition candidateValue :: "nat \<Rightarrow> int \<times> int \<Rightarrow> rat" where
  "candidateValue k c = of_int (snd c) * powInt 10 (fst c - int k)"

definition validDigits :: "rat \<Rightarrow> nat \<Rightarrow> (int \<times> int) list" where
  "validDigits x k =
     filter (\<lambda>c. roundDouble (candidateValue k c) = Finite x) (digitCandidates x k)"

text \<open>Of two candidates the one closer to \<open>x\<close>, the even one when they are as close.\<close>

definition closer :: "rat \<Rightarrow> nat \<Rightarrow> int \<times> int \<Rightarrow> int \<times> int \<Rightarrow> int \<times> int" where
  "closer x k c d =
     (let ec = \<bar>candidateValue k c - x\<bar>; ed = \<bar>candidateValue k d - x\<bar>
      in if ec < ed then c else if ed < ec then d else if even (snd c) then c else d)"

definition shortestDigits :: "rat \<Rightarrow> int \<times> nat \<times> int" where
  "shortestDigits x =
     (case List.find (\<lambda>k. validDigits x k \<noteq> []) [1..<17] of
        Some k \<Rightarrow> (let c = foldl (closer x k) (hd (validDigits x k)) (tl (validDigits x k))
                   in (fst c, k, snd c))
      | None \<Rightarrow> (let cs = digitCandidates x 17; c = foldl (closer x 17) (hd cs) (tl cs)
                 in (fst c, 17, snd c)))"

definition exponentString :: "int \<Rightarrow> string" where
  "exponentString n =
     ''e'' @ (if n - 1 < 0 then ''-'' else ''+'') @ digitsOf \<bar>n - 1\<bar>"

definition positiveToString :: "rat \<Rightarrow> string" where
  "positiveToString x =
     (let (n, k, s) = shortestDigits x; ds = digitsOf s
      in if int k \<le> n \<and> n \<le> 21 then ds @ replicate (nat (n - int k)) CHR ''0''
         else if 0 < n \<and> n \<le> 21 then take (nat n) ds @ ''.'' @ drop (nat n) ds
         else if - 6 < n \<and> n \<le> 0 then ''0.'' @ replicate (nat (- n)) CHR ''0'' @ ds
         else if k = 1 then ds @ exponentString n
         else take 1 ds @ ''.'' @ drop 1 ds @ exponentString n)"

fun numberToString :: "number \<Rightarrow> string" where
  "numberToString NaN = ''NaN''"
| "numberToString PosInfinity = ''Infinity''"
| "numberToString NegInfinity = ''-Infinity''"
| "numberToString (Finite x) =
     (if x = 0 then ''0'' else if x < 0 then ''-'' @ positiveToString (- x)
      else positiveToString x)"

subsection \<open>toFixed\<close>

text \<open>
  \<^verbatim>\<open>Number.prototype.toFixed(f)\<close>: a value that is not finite prints as
  \<^verbatim>\<open>Number::toString\<close> does, and so does a magnitude from \<open>10 ^ 21\<close>; any other value
  is rounded to the nearest multiple of \<open>10 ^ - f\<close> (the larger of two), printed with
  all its \<open>f\<close> fraction digits.
\<close>

definition fixedDigits :: "rat \<Rightarrow> nat \<Rightarrow> string" where
  "fixedDigits x f =
     (let n = \<lfloor>x * 10 ^ f + 1 / 2\<rfloor>;
          m = (if n = 0 then ''0'' else digitsOf n)
      in if f \<noteq> 0 then
           (let m' = (if length m \<le> f then replicate (f + 1 - length m) CHR ''0'' @ m else m);
                k = length m'
            in take (k - f) m' @ ''.'' @ drop (k - f) m')
         else m)"

fun toFixed :: "number \<Rightarrow> nat \<Rightarrow> string" where
  "toFixed (Finite x) f =
     (let s = (if x < 0 then ''-'' else []);
          a = \<bar>x\<bar>
      in if 10 ^ 21 \<le> a then s @ numberToString (Finite a) else s @ fixedDigits a f)"
| "toFixed x f = numberToString x"

text \<open>
  A decimal string with exactly \<open>n\<close> fraction digits: an optional minus sign, at least
  one digit, a point, and \<open>n\<close> digits to the end.
\<close>

definition isFixedDecimal :: "nat \<Rightarrow> string \<Rightarrow> bool" where
  "isFixedDecimal n s =
     (let u = (if take 1 s = ''-'' then drop 1 s else s);
          ip = takeWhile isDigit u;
          r = dropWhile isDigit u
      in ip \<noteq> [] \<and> take 1 r = ''.'' \<and> list_all isDigit (drop 1 r) \<and> length (drop 1 r) = n)"

section \<open>The formatter\<close>

text \<open>
  \<^verbatim>\<open>formatTokenAmount(amount)\<close>, the same in every script. The argument is a field of a
  decoded response or the string of a computed total: a string, or absent.
\<close>

definition formatTokenAmount :: "string option \<Rightarrow> string" where
  "formatTokenAmount amount =
     (case amount of
        None \<Rightarrow> ''0''
      | Some a \<Rightarrow>
          if a = [] \<or> a = ''0'' then ''0''
          else
            let numAmount = parseFloat a
            in if strictEquals numAmount (Finite 0) then ''0''
               else if greaterEq numAmount (Finite 1) then toFixed numAmount 6
               else toFixed numAmount 12)"

section \<open>Objects used as dictionaries\<close>

text \<open>
  The scripts group into plain objects: \<^verbatim>\<open>if (!obj[key]) { obj[key] = []; }
  obj[key].push(item)\<close>. An object is the list of its own properties in the order they
  were created. A key the object does not own is looked up in \<^verbatim>\<open>Object.prototype\<close>:
  for one of its property names the lookup finds a function (or, for \<^verbatim>\<open>__proto__\<close>,
  the prototype itself), which is truthy, so no group is created and the call of
  \<^verbatim>\<open>push\<close> on that value throws a \<^verbatim>\<open>TypeError\<close>.
\<close>

datatype error =
  TypeError
| RangeError
| TransportFailure string
| GraphQLErrors "string list"
| PoolNotFound string

type_synonym 'a object = "(string \<times> 'a) list"

definition objectPrototypeKeys :: "string list" where
  "objectPrototypeKeys =
     [''constructor'', ''__defineGetter__'', ''__defineSetter__'', ''hasOwnProperty'',
      ''__lookupGetter__'', ''__lookupSetter__'', ''isPrototypeOf'',
      ''propertyIsEnumerable'', ''toString'', ''valueOf'', ''__proto__'',
      ''toLocaleString'']"

definition addToGroup :: "'a list object \<Rightarrow> string \<Rightarrow> 'a \<Rightarrow> error + 'a list object" where
  "addToGroup obj key item =
     (case map_of obj key of
        Some _ \<Rightarrow> Inr (map (\<lambda>(k, g). if k = key then (k, g @ [item]) else (k, g)) obj)
      | None \<Rightarrow>
          if key \<in> set objectPrototypeKeys then Inl TypeError
          else Inr (obj @ [(key, [item])]))"

text \<open>
  \<^verbatim>\<open>Object.entries\<close> and \<^verbatim>\<open>Object.keys\<close> list the own properties whose key is an array
  index (the canonical decimal string of an integer below \<open>2 ^ 32 - 1\<close>) first, in
  ascending numeric order, and then the other keys in the order they were created.
\<close>

definition isArrayIndex :: "string \<Rightarrow> bool" where
  "isArrayIndex k =
     (k \<noteq> [] \<and> list_all isDigit k \<and> (k = ''0'' \<or> hd k \<noteq> CHR ''0'') \<and>
      intOfDigits k < 2 ^ 32 - 1)"

definition entries :: "'a object \<Rightarrow> (string \<times> 'a) list" where
  "entries obj =
     sort_key (\<lambda>(k, v). intOfDigits k) (filter (\<lambda>(k, v). isArrayIndex k) obj) @
     filter (\<lambda>(k, v). \<not> isArrayIndex k) obj"

fun groupInto :: "('a \<Rightarrow> string) \<Rightarrow> 'a list object \<Rightarrow> 'a list \<Rightarrow> error + 'a list object" where
  "groupInto key obj [] = Inr obj"
| "groupInto key obj (x # xs) =
     (case addToGroup obj (key x) x of
        Inl e \<Rightarrow> Inl e
      | Inr obj' \<Rightarrow> groupInto key obj' xs)"

section \<open>Printing the date of a snapshot\<close>

text \<open>
  Every snapshot line starts with
  \<^verbatim>\<open>new Date(parseInt(snapshot.timestamp) * 1000).toISOString()\<close>, and
  \<^verbatim>\<open>toISOString\<close> throws a \<^verbatim>\<open>RangeError\<close> for a date whose time value is NaN. The
  model keeps the time value in place of its text.
\<close>

definition toISOString :: "number \<Rightarrow> error + rat" where
  "toISOString tv = (case tv of Finite x \<Rightarrow> Inr x | _ \<Rightarrow> Inl RangeError)"

definition snapshotDate :: "snapshot \<Rightarrow> error + rat" where
  "snapshotDate snapshot =
     toISOString (timeClip (multiply (parseInt (timestamp snapshot)) (Finite 1000)))"

text \<open>
  A loop that prints the snapshots of a list one after the other: the snapshots
  printed, or the exception of the first date that cannot be printed.
\<close>

fun printSnapshots :: "snapshot list \<Rightarrow> error + snapshot list" where
  "printSnapshots [] = Inr []"
| "printSnapshots (snapshot # rest) =
     (case snapshotDate snapshot of
        Inl e \<Rightarrow> Inl e
      | Inr _ \<Rightarrow>
          (case printSnapshots rest of
             Inl e \<Rightarrow> Inl e
           | Inr printed \<Rightarrow> Inr (snapshot # printed)))"

section \<open>Grouping by pool and by user\<close>

definition snapshotsByPool :: "snapshot list \<Rightarrow> error + snapshot list object" where
  "snapshotsByPool snapshots = groupInto (\<lambda>snapshot. poolId (pool snapshot)) [] snapshots"

definition snapshotsByUser :: "snapshot list \<Rightarrow> error + snapshot list object" where
  "snapshotsByUser poolSnapshots = groupInto owner [] poolSnapshots"

text \<open>
  The loops of \<^verbatim>\<open>displayPositionSnapshots\<close>, in the order they run: for every entry
  of the pool grouping, the snapshots of the pool are grouped by user, and for every
  entry of that grouping the snapshots of the user are printed. An exception ends the
  function, so a pool is grouped by user only when the pools before it were printed.
\<close>

fun printUsers :: "(string \<times> snapshot list) list \<Rightarrow> error + (string \<times> snapshot list) list" where
  "printUsers [] = Inr []"
| "printUsers ((u, userSnapshots) # rest) =
     (case printSnapshots userSnapshots of
        Inl e \<Rightarrow> Inl e
      | Inr printed \<Rightarrow>
          (case printUsers rest of
             Inl e \<Rightarrow> Inl e
           | Inr users \<Rightarrow> Inr ((u, printed) # users)))"

fun userGroups ::
  "(string \<times> snapshot list) list \<Rightarrow> error + (string \<times> (string \<times> snapshot list) list) list"
where
  "userGroups [] = Inr []"
| "userGroups ((p, poolSnapshots) # rest) =
     (case snapshotsByUser poolSnapshots of
        Inl e \<Rightarrow> Inl e
      | Inr byUser \<Rightarrow>
          (case printUsers (entries byUser) of
             Inl e \<Rightarrow> Inl e
           | Inr users \<Rightarrow>
               (case userGroups rest of
                  Inl e \<Rightarrow> Inl e
                | Inr gs \<Rightarrow> Inr ((p, users) # gs))))"

definition poolGroups ::
  "snapshot list \<Rightarrow> error + (string \<times> (string \<times> snapshot list) list) list"
where
  "poolGroups snapshots =
     (case snapshotsByPool snapshots of
        Inl e \<Rightarrow> Inl e
      | Inr byPool \<Rightarrow> userGroups (entries byPool))"

section \<open>Grouping by position\<close>

text \<open>\<^verbatim>\<open>snapshot.position?.id\<close>, and the test \<^verbatim>\<open>if (positionId)\<close>.\<close>

definition positionIdOf :: "snapshot \<Rightarrow> string option" where
  "positionIdOf snapshot =
     (case position snapshot of None \<Rightarrow> None | Some p \<Rightarrow> positionId p)"

definition hasPositionId :: "snapshot \<Rightarrow> bool" where
  "hasPositionId snapshot =
     (case positionIdOf snapshot of None \<Rightarrow> False | Some i \<Rightarrow> i \<noteq> [])"

fun groupByPositionId :: "snapshot list object \<Rightarrow> snapshot list \<Rightarrow> error + snapshot list object" where
  "groupByPositionId obj [] = Inr obj"
| "groupByPositionId obj (snapshot # rest) =
     (case positionIdOf snapshot of
        None \<Rightarrow> groupByPositionId obj rest
      | Some i \<Rightarrow>
          if i \<noteq> [] then
            (case addToGroup obj i snapshot of
               Inl e \<Rightarrow> Inl e
             | Inr obj' \<Rightarrow> groupByPositionId obj' rest)
          else groupByPositionId obj rest)"

definition snapshotsByPosition :: "snapshot list \<Rightarrow> error + snapshot list object" where
  "snapshotsByPosition snapshots = groupByPositionId [] snapshots"

text \<open>
  \<^verbatim>\<open>Object.entries(snapshotsByPosition).sort(([, a], [, b]) => b.length - a.length)\<close>:
  \<^verbatim>\<open>Array.prototype.sort\<close> is stable.
\<close>

definition sortedPositions :: "snapshot list object \<Rightarrow> (string \<times> snapshot list) list" where
  "sortedPositions obj = sort_key (\<lambda>(k, g). - int (length g)) (entries obj)"

section \<open>Totals of a position\<close>

text \<open>\<^verbatim>\<open>parseFloat(field || 0)\<close>: an absent or empty field counts as zero.\<close>

definition parsedAmount :: "string option \<Rightarrow> number" where
  "parsedAmount v = (case v of None \<Rightarrow> Finite 0 | Some s \<Rightarrow> if s = [] then Finite 0 else parseFloat s)"

record totals =
  totalDeposited0 :: number
  totalDeposited1 :: number
  totalWithdrawn0 :: number
  totalWithdrawn1 :: number
  totalFees0 :: number
  totalFees1 :: number
  maxLiquidity :: number
  currentLiquidity :: number

definition noTotals :: totals where
  "noTotals =
     \<lparr>totalDeposited0 = Finite 0, totalDeposited1 = Finite 0,
      totalWithdrawn0 = Finite 0, totalWithdrawn1 = Finite 0,
      totalFees0 = Finite 0, totalFees1 = Finite 0,
      maxLiquidity = Finite 0, currentLiquidity = Finite 0\<rparr>"

text \<open>
  The body of \<^verbatim>\<open>positionSnapshots.forEach\<close>. The test
  \<^verbatim>\<open>snapshot === positionSnapshots[0]\<close> compares object identities: it holds for the
  element at index 0 only.
\<close>

definition addSnapshot :: "totals \<Rightarrow> nat \<Rightarrow> snapshot \<Rightarrow> totals" where
  "addSnapshot t i snapshot =
     (let liq = parsedAmount (liquidity snapshot)
      in \<lparr>totalDeposited0 = add (totalDeposited0 t) (parsedAmount (depositedToken0 snapshot)),
          totalDeposited1 = add (totalDeposited1 t) (parsedAmount (depositedToken1 snapshot)),
          totalWithdrawn0 = add (totalWithdrawn0 t) (parsedAmount (withdrawnToken0 snapshot)),
          totalWithdrawn1 = add (totalWithdrawn1 t) (parsedAmount (withdrawnToken1 snapshot)),
          totalFees0 = add (totalFees0 t) (parsedAmount (collectedFeesToken0 snapshot)),
          totalFees1 = add (totalFees1 t) (parsedAmount (collectedFeesToken1 snapshot)),
          maxLiquidity = (if greater liq (maxLiquidity t) then liq else maxLiquidity t),
          currentLiquidity = (if i = 0 then liq else currentLiquidity t)\<rparr>)"

fun positionTotalsFrom :: "totals \<Rightarrow> nat \<Rightarrow> snapshot list \<Rightarrow> totals" where
  "positionTotalsFrom t i [] = t"
| "positionTotalsFrom t i (snapshot # rest) =
     positionTotalsFrom (addSnapshot t i snapshot) (Suc i) rest"

definition positionTotals :: "snapshot list \<Rightarrow> totals" where
  "positionTotals positionSnapshots = positionTotalsFrom noTotals 0 positionSnapshots"

section \<open>The activity timeline\<close>

definition hasDeposits :: "snapshot \<Rightarrow> bool" where
  "hasDeposits snapshot =
     (greater (parsedAmount (depositedToken0 snapshot)) (Finite 0) \<or>
      greater (parsedAmount (depositedToken1 snapshot)) (Finite 0))"

definition hasWithdrawals :: "snapshot \<Rightarrow> bool" where
  "hasWithdrawals snapshot =
     (greater (parsedAmount (withdrawnToken0 snapshot)) (Finite 0) \<or>
      greater (parsedAmount (withdrawnToken1 snapshot)) (Finite 0))"

definition hasFees :: "snapshot \<Rightarrow> bool" where
  "hasFees snapshot =
     (greater (parsedAmount (collectedFeesToken0 snapshot)) (Finite 0) \<or>
      greater (parsedAmount (collectedFeesToken1 snapshot)) (Finite 0))"

definition significantSnapshots :: "snapshot list \<Rightarrow> snapshot list" where
  "significantSnapshots positionSnapshots =
     filter (\<lambda>snapshot. hasDeposits snapshot \<or> hasWithdrawals snapshot \<or> hasFees snapshot)
       positionSnapshots"

section \<open>The reports\<close>

text \<open>
  The display functions print to the console. The model returns what they compute and
  print, as data: the groups in the order they are printed, the totals, the events of
  a timeline, the numbers of a summary. The text of a line is not modelled. A function
  that throws returns the exception.
\<close>

record positionReport =
  reportPositionId :: string
  reportOwner :: string
  reportPool :: pool
  activity :: nat
  reportTotals :: totals
  netToken0 :: number
  netToken1 :: number
  significantEvents :: nat
  timeline :: "snapshot list"
  moreEvents :: "nat option"

record positionSummary =
  totalUniquePositions :: nat
  mostActivePosition :: "string \<times> nat"
  averageActivity :: string

datatype transactionsOutput =
  NoPositions
| Positions "positionReport list" positionSummary

text \<open>
  One iteration of \<^verbatim>\<open>sortedPositions.forEach\<close> of \<^verbatim>\<open>displayPositionTransactions\<close>.
  Reading \<^verbatim>\<open>positionSnapshots[0].pool\<close> of an empty group would throw. The timeline
  prints \<^verbatim>\<open>significantSnapshots.slice(0, 5)\<close>, each event with its date.
\<close>

fun reportPosition :: "string \<times> snapshot list \<Rightarrow> error + positionReport" where
  "reportPosition (i, []) = Inl TypeError"
| "reportPosition (i, firstSnapshot # rest) =
     (let positionSnapshots = firstSnapshot # rest;
          t = positionTotals positionSnapshots;
          significant = significantSnapshots positionSnapshots
      in case printSnapshots (take 5 significant) of
           Inl e \<Rightarrow> Inl e
         | Inr events \<Rightarrow>
             Inr \<lparr>reportPositionId = i,
                  reportOwner = owner firstSnapshot,
                  reportPool = pool firstSnapshot,
                  activity = length positionSnapshots,
                  reportTotals = t,
                  netToken0 = subtract (totalDeposited0 t) (totalWithdrawn0 t),
                  netToken1 = subtract (totalDeposited1 t) (totalWithdrawn1 t),
                  significantEvents = length significant,
                  timeline = events,
                  moreEvents =
                    (if length significant > 5 then Some (length significant - 5)
                     else None)\<rparr>)"

fun reportPositions :: "(string \<times> snapshot list) list \<Rightarrow> error + positionReport list" where
  "reportPositions [] = Inr []"
| "reportPositions (g # gs) =
     (case reportPosition g of
        Inl e \<Rightarrow> Inl e
      | Inr r \<Rightarrow> (case reportPositions gs of Inl e \<Rightarrow> Inl e | Inr rs \<Rightarrow> Inr (r # rs)))"

text \<open>
  The average of the summary:
  \<^verbatim>\<open>(snapshots.filter(s => s.position?.id).length / sortedPositions.length).toFixed(1)\<close>.
  Both lengths are integers below \<open>2 ^ 32\<close>, exact Numbers, and the divisor is not zero
  where the function reaches the summary.
\<close>

definition averageActivityOf :: "nat \<Rightarrow> nat \<Rightarrow> string" where
  "averageActivityOf n d = toFixed (roundDouble (of_nat n / of_nat d)) 1"

definition displayPositionTransactions :: "snapshot list \<Rightarrow> error + transactionsOutput" where
  "displayPositionTransactions snapshots =
     (case snapshotsByPosition snapshots of
        Inl e \<Rightarrow> Inl e
      | Inr byPosition \<Rightarrow>
          if length (entries byPosition) = 0 then Inr NoPositions
          else
            (case reportPositions (sortedPositions byPosition) of
               Inl e \<Rightarrow> Inl e
             | Inr reports \<Rightarrow>
                 (case sortedPositions byPosition of
                    [] \<Rightarrow> Inl TypeError
                  | (i, g) # _ \<Rightarrow>
                      Inr (Positions reports
                        \<lparr>totalUniquePositions = length (sortedPositions byPosition),
                         mostActivePosition = (i, length g),
                         averageActivity =
                           averageActivityOf (length (filter hasPositionId snapshots))
                             (length (sortedPositions byPosition))\<rparr>))))"

text \<open>The summary of the pool and user view.\<close>

record snapshotSummary =
  totalSnapshots :: nat
  uniqueUsers :: nat
  uniquePositions :: nat
  poolsCovered :: nat

definition truthyPositionIds :: "snapshot list \<Rightarrow> string list" where
  "truthyPositionIds snapshots =
     concat (map (\<lambda>s. case positionIdOf s of
                         None \<Rightarrow> []
                       | Some i \<Rightarrow> if i \<noteq> [] then [i] else []) snapshots)"

definition summarize :: "snapshot list \<Rightarrow> nat \<Rightarrow> snapshotSummary" where
  "summarize snapshots pools =
     \<lparr>totalSnapshots = length snapshots,
      uniqueUsers = length (remdups (map owner snapshots)),
      uniquePositions = length (remdups (truthyPositionIds snapshots)),
      poolsCovered = pools\<rparr>"

text \<open>\<^verbatim>\<open>displayPositionSnapshots\<close> of the first K-HYPE script: every snapshot.\<close>

datatype snapshotsOutput =
  NoSnapshots
| Snapshots "(string \<times> (string \<times> snapshot list) list) list" snapshotSummary

definition displayPositionSnapshots :: "snapshot list \<Rightarrow> error + snapshotsOutput" where
  "displayPositionSnapshots snapshots =
     (if length snapshots = 0 then Inr NoSnapshots
      else
        (case poolGroups snapshots of
           Inl e \<Rightarrow> Inl e
         | Inr groups \<Rightarrow> Inr (Snapshots groups (summarize snapshots (length groups)))))"

text \<open>
  \<^verbatim>\<open>displayPositionSnapshots\<close> of the second K-HYPE script: the snapshots of the
  allow-list, then their transactions by position.
\<close>

datatype filteredOutput =
  NoFilteredSnapshots
| FilteredSnapshots "(string \<times> (string \<times> snapshot list) list) list" snapshotSummary
    transactionsOutput

definition displayFilteredPositionSnapshots ::
  "string list \<Rightarrow> snapshot list \<Rightarrow> error + filteredOutput"
where
  "displayFilteredPositionSnapshots users snapshots =
     (let filtered = filteredSnapshots users snapshots
      in if length filtered = 0 then Inr NoFilteredSnapshots
         else
           (case poolGroups filtered of
              Inl e \<Rightarrow> Inl e
            | Inr groups \<Rightarrow>
                (case displayPositionTransactions filtered of
                   Inl e \<Rightarrow> Inl e
                 | Inr transactions \<Rightarrow>
                     Inr (FilteredSnapshots groups (summarize filtered (length groups))
                            transactions))))"

text \<open>
  \<^verbatim>\<open>displayPositionSnapshots\<close> of the pool script (fetch-thbill-positions.js): the
  positions by activity, three snapshots of each.
\<close>

record recentReport =
  recentPositionId :: string
  recentOwner :: string
  recentCount :: nat
  recentSnapshots :: "snapshot list"
  moreSnapshots :: "nat option"

record recentSummary =
  recentTotalSnapshots :: nat
  recentUniquePositions :: nat
  recentUniqueOwners :: nat
  recentMostActive :: "(string \<times> nat) option"

datatype recentOutput =
  NoRecentSnapshots
| RecentSnapshots "recentReport list" recentSummary

fun reportRecent :: "string \<times> snapshot list \<Rightarrow> error + recentReport" where
  "reportRecent (i, []) = Inl TypeError"
| "reportRecent (i, firstSnapshot # rest) =
     (let positionSnapshots = firstSnapshot # rest
      in case printSnapshots (take 3 positionSnapshots) of
           Inl e \<Rightarrow> Inl e
         | Inr recent \<Rightarrow>
             Inr \<lparr>recentPositionId = i,
                  recentOwner = owner firstSnapshot,
                  recentCount = length positionSnapshots,
                  recentSnapshots = recent,
                  moreSnapshots =
                    (if length positionSnapshots > 3 then Some (length positionSnapshots - 3)
                     else None)\<rparr>)"

fun reportRecents :: "(string \<times> snapshot list) list \<Rightarrow> error + recentReport list" where
  "reportRecents [] = Inr []"
| "reportRecents (g # gs) =
     (case reportRecent g of
        Inl e \<Rightarrow> Inl e
      | Inr r \<Rightarrow> (case reportRecents gs of Inl e \<Rightarrow> Inl e | Inr rs \<Rightarrow> Inr (r # rs)))"

definition displayPoolPositionSnapshots :: "snapshot list \<Rightarrow> error + recentOutput" where
  "displayPoolPositionSnapshots snapshots =
     (if length snapshots = 0 then Inr NoRecentSnapshots
      else
        (case snapshotsByPosition snapshots of
           Inl e \<Rightarrow> Inl e
         | Inr byPosition \<Rightarrow>
             (case reportRecents (sortedPositions byPosition) of
                Inl e \<Rightarrow> Inl e
              | Inr reports \<Rightarrow>
                  Inr (RecentSnapshots reports
                    \<lparr>recentTotalSnapshots = length snapshots,
                     recentUniquePositions = length (sortedPositions byPosition),
                     recentUniqueOwners = length (remdups (map owner snapshots)),
                     recentMostActive =
                       (case sortedPositions byPosition of
                          [] \<Rightarrow> None
                        | (i, g) # _ \<Rightarrow> Some (i, length g))\<rparr>))))"

section \<open>The fetchers\<close>

text \<open>
  A fetcher posts one GraphQL query and decodes the response. The network is a function
  from the number of requests sent so far to the reply of the next one, so that a
  second attempt would see another reply. A reply is a rejection (\<^verbatim>\<open>fetch\<close> or
  \<^verbatim>\<open>response.json()\<close> throws) or a decoded body with its \<^verbatim>\<open>errors\<close> (absent, or an
  array, which is truthy even when empty) and its \<^verbatim>\<open>data\<close> (absent or null, or the
  object holding the selected field). The state is what the run has sent and what it
  has reported with \<^verbatim>\<open>console.error\<close>.
\<close>

record 'd body =
  errors :: "string list option"
  data :: "'d option"

datatype 'd reply = Rejected string | Decoded "'d body"

datatype request =
  PoolInfoRequest string
| AllPoolsRequest
| PositionSnapshotsRequest "string list" string

record io =
  requests :: "request list"
  reported :: "(string \<times> error) list"

definition POOL_ID :: string where
  "POOL_ID = ''0xc06e0fea115e54c54125dfe2f0509d5be55e4005''"

definition KHYPE_TOKEN_ID :: string where
  "KHYPE_TOKEN_ID = ''0xfd739d4e423301ce9385c1fb8850539d657c296d''"

definition send :: "request \<Rightarrow> io \<Rightarrow> io" where
  "send r s = s\<lparr>requests := requests s @ [r]\<rparr>"

definition report :: "string \<Rightarrow> error \<Rightarrow> io \<Rightarrow> io" where
  "report context e s = s\<lparr>reported := reported s @ [(context, e)]\<rparr>"

text \<open>
  \<^verbatim>\<open>fetchPoolInfo\<close> (fetch-thbill-positions.js). The data of the reply is the field
  \<^verbatim>\<open>pool\<close>, null when the subgraph has no such pool. Reading \<^verbatim>\<open>data.data.pool\<close> of
  an absent \<^verbatim>\<open>data\<close> throws a \<^verbatim>\<open>TypeError\<close>. The \<^verbatim>\<open>catch\<close> reports and rethrows.
\<close>

definition fetchPoolInfo :: "(nat \<Rightarrow> 'p option reply) \<Rightarrow> io \<Rightarrow> (error + 'p) \<times> io" where
  "fetchPoolInfo net s =
     (let s1 = send (PoolInfoRequest POOL_ID) s;
          result =
            (case net (length (requests s)) of
               Rejected m \<Rightarrow> Inl (TransportFailure m)
             | Decoded b \<Rightarrow>
                 (case errors b of
                    Some es \<Rightarrow> Inl (GraphQLErrors es)
                  | None \<Rightarrow>
                      (case data b of
                         None \<Rightarrow> Inl TypeError
                       | Some None \<Rightarrow> Inl (PoolNotFound POOL_ID)
                       | Some (Some p) \<Rightarrow> Inr p)))
      in case result of
           Inl e \<Rightarrow> (Inl e, report ''Error fetching pool info:'' e s1)
         | Inr p \<Rightarrow> (Inr p, s1))"

text \<open>
  \<^verbatim>\<open>fetchKHypePools\<close>: every pool, then those with K-HYPE as a token, compared in
  lower case on both sides.
\<close>

definition isKHypePool :: "pool \<Rightarrow> bool" where
  "isKHypePool p =
     (toLowerCase (tokenId (token0 p)) = toLowerCase KHYPE_TOKEN_ID \<or>
      toLowerCase (tokenId (token1 p)) = toLowerCase KHYPE_TOKEN_ID)"

definition fetchKHypePools :: "(nat \<Rightarrow> pool list reply) \<Rightarrow> io \<Rightarrow> (error + pool list) \<times> io" where
  "fetchKHypePools net s =
     (let s1 = send AllPoolsRequest s;
          result =
            (case net (length (requests s)) of
               Rejected m \<Rightarrow> Inl (TransportFailure m)
             | Decoded b \<Rightarrow>
                 (case errors b of
                    Some es \<Rightarrow> Inl (GraphQLErrors es)
                  | None \<Rightarrow>
                      (case data b of
                         None \<Rightarrow> Inl TypeError
                       | Some allPools \<Rightarrow> Inr (filter isKHypePool allPools))))
      in case result of
           Inl e \<Rightarrow> (Inl e, report ''Error fetching K-HYPE pools:'' e s1)
         | Inr kHypePools \<Rightarrow> (Inr kHypePools, s1))"

text \<open>
  \<^verbatim>\<open>fetchKHypePositionSnapshots\<close>: the pools first, then the snapshots of these pools
  since the given time. An \<^verbatim>\<open>errors\<close> payload is reported once before the throw and
  once more by the \<^verbatim>\<open>catch\<close>, as every failure is, that of the pool query included.
\<close>

definition fetchKHypePositionSnapshots ::
  "(nat \<Rightarrow> pool list reply) \<Rightarrow> (nat \<Rightarrow> snapshot list reply) \<Rightarrow> string \<Rightarrow> io \<Rightarrow>
   (error + snapshot list) \<times> io"
where
  "fetchKHypePositionSnapshots poolsNet net sevenDaysAgoTimestamp s =
     (case fetchKHypePools poolsNet s of
        (Inl e, s1) \<Rightarrow> (Inl e, report ''Error fetching position snapshots:'' e s1)
      | (Inr kHypePools, s1) \<Rightarrow>
          (let kHypePoolIds = map poolId kHypePools;
               s2 = send (PositionSnapshotsRequest kHypePoolIds sevenDaysAgoTimestamp) s1
           in case net (length (requests s1)) of
                Rejected m \<Rightarrow>
                  (Inl (TransportFailure m),
                   report ''Error fetching position snapshots:'' (TransportFailure m) s2)
              | Decoded b \<Rightarrow>
                  (case errors b of
                     Some es \<Rightarrow>
                       (Inl (GraphQLErrors es),
                        report ''Error fetching position snapshots:'' (GraphQLErrors es)
                          (report ''GraphQL errors:'' (GraphQLErrors es) s2))
                   | None \<Rightarrow>
                       (case data b of
                          None \<Rightarrow>
                            (Inl TypeError,
                             report ''Error fetching position snapshots:'' TypeError s2)
                        | Some positionSnapshots \<Rightarrow> (Inr positionSnapshots, s2)))))"

text \<open>
  The ways a reply makes a fetcher fail: the transport failed, the body carries an
  \<^verbatim>\<open>errors\<close> payload, or what the fetcher reads from the body is absent.
\<close>

definition transportFailed :: "'d reply \<Rightarrow> bool" where
  "transportFailed r = (case r of Rejected _ \<Rightarrow> True | Decoded _ \<Rightarrow> False)"

definition carriesErrors :: "'d reply \<Rightarrow> bool" where
  "carriesErrors r = (case r of Rejected _ \<Rightarrow> False | Decoded b \<Rightarrow> errors b \<noteq> None)"

definition dataAbsent :: "'d reply \<Rightarrow> bool" where
  "dataAbsent r = (case r of Rejected _ \<Rightarrow> False | Decoded b \<Rightarrow> data b = None)"

definition poolAbsent :: "'p option reply \<Rightarrow> bool" where
  "poolAbsent r =
     (case r of Rejected _ \<Rightarrow> False | Decoded b \<Rightarrow> data b = None \<or> data b = Some None)"

definition failed :: "'d reply \<Rightarrow> bool" where
  "failed r = (transportFailed r \<or> carriesErrors r \<or> dataAbsent r)"

section \<open>Well-formed data\<close>

text \<open>
  What the subgraph delivers: the id of a pool and the owner of a snapshot are
  addresses (\<^verbatim>\<open>0x\<close> and hexadecimal digits), and a timestamp is a decimal number of
  seconds, within the range of a \<^verbatim>\<open>Date\<close> (\<open>8.64 * 10 ^ 12\<close> seconds around the epoch).
\<close>

definition isAddress :: "string \<Rightarrow> bool" where
  "isAddress k = (take 2 k = ''0x'' \<and> drop 2 k \<noteq> [] \<and> list_all isHexDigit (drop 2 k))"

definition isTimestamp :: "string \<Rightarrow> bool" where
  "isTimestamp ts = (ts \<noteq> [] \<and> list_all isDigit ts \<and> intOfDigits ts \<le> 8640000000000)"

definition wellFormed :: "snapshot \<Rightarrow> bool" where
  "wellFormed s =
     (isAddress (poolId (pool s)) \<and> isAddress (owner s) \<and> isTimestamp (timestamp s))"

text \<open>A well-formed snapshot of a pool, an owner and a position, for the examples.\<close>

definition snapshotOf :: "string \<Rightarrow> string \<Rightarrow> string option \<Rightarrow> snapshot" where
  "snapshotOf p u i = (mkSnapshot p u i)\<lparr>timestamp := ''1757500000''\<rparr>"


text \<open>
  The positions of an output in the order they are printed, each with its number of
  snapshots, for \<^verbatim>\<open>displayPositionTransactions\<close> and for \<^verbatim>\<open>displayPositionSnapshots\<close>
  of the pool script; and the order in which \<^verbatim>\<open>Object.entries\<close> lists keys that were
  created in a given order.
\<close>

definition printedPositions :: "error + transactionsOutput \<Rightarrow> (string \<times> nat) list" where
  "printedPositions out =
     (case out of
        Inr (Positions reports _) \<Rightarrow> map (\<lambda>r. (reportPositionId r, activity r)) reports
      | _ \<Rightarrow> [])"

definition printedRecents :: "error + recentOutput \<Rightarrow> (string \<times> nat) list" where
  "printedRecents out =
     (case out of
        Inr (RecentSnapshots reports _) \<Rightarrow> map (\<lambda>r. (recentPositionId r, recentCount r)) reports
      | _ \<Rightarrow> [])"

definition entryOrder :: "string list \<Rightarrow> string list" where
  "entryOrder ks =
     sort_key intOfDigits (filter isArrayIndex ks) @ filter (\<lambda>k. \<not> isArrayIndex k) ks"


text \<open>The key under which a snapshot with a position id is grouped.\<close>

definition positionKey :: "snapshot \<Rightarrow> string" where
  "positionKey s = (case positionIdOf s of None \<Rightarrow> [] | Some i \<Rightarrow> i)"

text \<open>The snapshots of the example of the specification.\<close>

definition exampleSnapshot :: "string \<Rightarrow> string \<Rightarrow> snapshot" where
  "exampleSnapshot deposited withdrawn =
     (snapshotOf ''0xc06e'' ''0xA'' (Some ''1''))
       \<lparr>depositedToken0 := Some deposited, withdrawnToken0 := Some withdrawn\<rparr>"

section \<open>What a grouping should be\<close>

text \<open>
  The keys of a sequence in the order of their first occurrence, the grouping of a
  sequence by a key (one entry per key, holding the elements of that key in their
  order), and the elements of all groups of an object.
\<close>

definition firstOccurrences :: "'a list \<Rightarrow> 'a list" where
  "firstOccurrences xs = rev (remdups (rev xs))"

definition groupsOf :: "('a \<Rightarrow> string) \<Rightarrow> 'a list \<Rightarrow> 'a list object" where
  "groupsOf key xs =
     map (\<lambda>k. (k, filter (\<lambda>x. key x = k) xs)) (firstOccurrences (map key xs))"

definition members :: "'a list object \<Rightarrow> 'a list" where
  "members obj = concat (map snd obj)"

section \<open>Properties of the allow-list filter\<close>

lemma arrayIncludes_Nil: "arrayIncludes [] s = False"
  by (simp add: arrayIncludes_def)

lemma filteredSnapshots_empty_list: "filteredSnapshots [] snapshots = []"
  by (simp add: filteredSnapshots_def arrayIncludes_Nil)

text \<open>
  The filter keeps the snapshots whose lower-cased owner is literally an entry of the
  list, in their order.
\<close>

lemma filteredSnapshots_subseq: "subseq (filteredSnapshots users snapshots) snapshots"
  by (simp add: filteredSnapshots_def)

lemma toLowerCase_idem: "toLowerCase (toLowerCase s) = toLowerCase s"
proof -
  have "lowerChar (lowerChar c) = lowerChar c" for c
  proof (cases "isUpperCase c")
    case False
    then show ?thesis by (simp add: lowerChar_def)
  next
    case True
    then have "\<not> isUpperCase (char_of ((of_char c :: nat) + 32))"
      by (auto simp: isUpperCase_def Let_def)
    with True show ?thesis by (simp add: lowerChar_def)
  qed
  then show ?thesis by (simp add: toLowerCase_def)
qed

text \<open>
  When every entry of the list is written in lower case, the filter is the
  case-insensitive one.
\<close>

lemma filteredSnapshots_lower_case_list:
  assumes "list_all (\<lambda>u. toLowerCase u = u) users"
  shows "filteredSnapshots users snapshots =
         filter (\<lambda>s. list_ex (matchesIgnoringCase (owner s)) users) snapshots"
proof -
  have same: "arrayIncludes users (toLowerCase (owner s)) =
        list_ex (matchesIgnoringCase (owner s)) users" for s :: snapshot
    using assms
    by (auto simp: arrayIncludes_def list_ex_iff list_all_iff matchesIgnoringCase_def)
  show ?thesis unfolding filteredSnapshots_def by (simp add: same)
qed

text \<open>
  Claim C1. With an empty allow-list the filter should return the sequence unchanged
  (the script's header: ``To show all users, set FILTER_USERS to an empty array []'').
  The code tests membership in the list, so an empty list removes every snapshot: a
  sequence of one snapshot is filtered to the empty sequence.
\<close>

theorem C1_empty_allow_list_removes_all:
  "filteredSnapshots []
     [mkSnapshot ''0xpool'' ''0x06253f963c242f3ac57201ff8298d7e5df3e8c4c'' None] = []"
  by (simp add: filteredSnapshots_def arrayIncludes_def)

text \<open>
  Claim C4. For a non-empty allow-list the filter should keep exactly the snapshots whose
  owner matches an entry case-insensitively. The code lower-cases the owner and not the
  entries, so an entry written with an upper-case letter never matches: with the list
  \<^verbatim>\<open>['0xAB']\<close> the snapshot of owner \<^verbatim>\<open>'0xab'\<close>, which matches the entry
  case-insensitively, is removed.
\<close>

theorem C4_upper_case_entry_never_matches:
  "matchesIgnoringCase ''0xab'' ''0xAB'' \<and>
   filteredSnapshots [''0xAB''] [mkSnapshot ''0xpool'' ''0xab'' None] = []"
  by code_simp

section \<open>Properties of the groupings\<close>

lemma firstOccurrences_snoc:
  "firstOccurrences (xs @ [x]) =
     (if x \<in> set xs then firstOccurrences xs else firstOccurrences xs @ [x])"
  by (simp add: firstOccurrences_def)

lemma set_firstOccurrences: "set (firstOccurrences xs) = set xs"
  by (simp add: firstOccurrences_def)

lemma distinct_firstOccurrences: "distinct (firstOccurrences xs)"
  by (simp add: firstOccurrences_def)

lemma map_of_groupsOf:
  "map_of (groupsOf key xs) k =
     (if k \<in> key ` set xs then Some (filter (\<lambda>x. key x = k) xs) else None)"
  by (simp add: groupsOf_def map_of_map_restrict restrict_map_def set_firstOccurrences)

lemma addToGroup_groupsOf:
  assumes "key x \<in> key ` set xs \<or> key x \<notin> set objectPrototypeKeys"
  shows "addToGroup (groupsOf key xs) (key x) x = Inr (groupsOf key (xs @ [x]))"
proof (cases "key x \<in> key ` set xs")
  case True
  then have fo: "firstOccurrences (map key (xs @ [x])) = firstOccurrences (map key xs)"
    by (simp add: firstOccurrences_snoc)
  have "(case (k, filter (\<lambda>y. key y = k) xs) of
           (k', g) \<Rightarrow> if k' = key x then (k', g @ [x]) else (k', g)) =
        (k, filter (\<lambda>y. key y = k) (xs @ [x]))" for k
    by (cases "k = key x") simp_all
  then have "map (\<lambda>(k, g). if k = key x then (k, g @ [x]) else (k, g)) (groupsOf key xs) =
        groupsOf key (xs @ [x])"
    unfolding groupsOf_def fo map_map comp_def by (simp only:)
  then show ?thesis using True by (simp add: addToGroup_def map_of_groupsOf)
next
  case False
  then have fo: "firstOccurrences (map key (xs @ [x])) = firstOccurrences (map key xs) @ [key x]"
    by (simp add: firstOccurrences_snoc)
  have "\<forall>y\<in>set xs. key y \<noteq> key x" using False by (metis imageI)
  then have none: "filter (\<lambda>y. key y = key x) xs = []"
    by (simp add: filter_empty_conv)
  have "filter (\<lambda>y. key y = k) (xs @ [x]) = filter (\<lambda>y. key y = k) xs"
    if "k \<in> set (firstOccurrences (map key xs))" for k
  proof -
    have "k \<in> key ` set xs" using that by (simp add: set_firstOccurrences)
    then have "key x \<noteq> k" using False by metis
    then show ?thesis by simp
  qed
  then have old: "map (\<lambda>k. (k, filter (\<lambda>y. key y = k) (xs @ [x]))) (firstOccurrences (map key xs)) =
             map (\<lambda>k. (k, filter (\<lambda>y. key y = k) xs)) (firstOccurrences (map key xs))"
    by (intro map_cong) simp_all
  have "groupsOf key xs @ [(key x, [x])] = groupsOf key (xs @ [x])"
    unfolding groupsOf_def fo using old none by simp
  then show ?thesis using False assms by (simp add: addToGroup_def map_of_groupsOf)
qed

lemma groupInto_append:
  "groupInto key obj (xs @ ys) =
     (case groupInto key obj xs of Inl e \<Rightarrow> Inl e | Inr obj' \<Rightarrow> groupInto key obj' ys)"
  by (induction xs arbitrary: obj) (auto split: sum.splits)

lemma groupInto_groupsOf:
  assumes "\<forall>x\<in>set xs. key x \<notin> set objectPrototypeKeys"
  shows "groupInto key [] xs = Inr (groupsOf key xs)"
  using assms
proof (induction xs rule: rev_induct)
  case Nil
  show ?case by (simp add: groupsOf_def firstOccurrences_def)
next
  case (snoc x xs)
  then have "groupInto key [] xs = Inr (groupsOf key xs)" by simp
  moreover have "addToGroup (groupsOf key xs) (key x) x = Inr (groupsOf key (xs @ [x]))"
    using snoc.prems by (intro addToGroup_groupsOf) simp
  ultimately show ?case by (simp add: groupInto_append)
qed

lemma groupInto_Inl:
  "groupInto key obj xs = Inl e \<Longrightarrow> e = TypeError"
  by (induction xs arbitrary: obj) (auto simp: addToGroup_def split: sum.splits option.splits if_splits)

lemma groupInto_TypeError:
  assumes "\<exists>x\<in>set xs. key x \<in> set objectPrototypeKeys"
  shows "groupInto key [] xs = Inl TypeError"
proof -
  from split_list_first_prop[OF assms]
  obtain as x bs where xs: "xs = as @ x # bs"
    and x: "key x \<in> set objectPrototypeKeys"
    and as: "\<forall>a\<in>set as. key a \<notin> set objectPrototypeKeys"
    by blast
  have "groupInto key [] as = Inr (groupsOf key as)" by (rule groupInto_groupsOf[OF as])
  moreover have "key x \<notin> key ` set as" using x as by (metis imageE)
  then have "map_of (groupsOf key as) (key x) = None"
    by (simp only: map_of_groupsOf if_False)
  then have "addToGroup (groupsOf key as) (key x) x = Inl TypeError"
    using x by (simp add: addToGroup_def)
  ultimately show ?thesis unfolding xs by (simp add: groupInto_append)
qed

lemma mset_entries: "mset (entries obj) = mset obj"
  by (simp add: entries_def)

lemma set_entries: "set (entries obj) = set obj"
  by (auto simp: entries_def)

lemma length_entries: "length (entries obj) = length obj"
  using mset_entries[of obj] by (metis size_mset)

lemma distinct_keys_entries:
  "distinct (map fst obj) \<Longrightarrow> distinct (map fst (entries obj))"
proof -
  assume d: "distinct (map fst obj)"
  have "mset (map fst (entries obj)) = mset (map fst obj)"
    by (metis mset_map mset_entries)
  then show ?thesis using d by (metis mset_eq_imp_distinct_iff)
qed

lemma set_groupsOf:
  "(k, g) \<in> set (groupsOf key xs) \<longleftrightarrow> k \<in> key ` set xs \<and> g = filter (\<lambda>x. key x = k) xs"
  by (auto simp: groupsOf_def set_firstOccurrences)

lemma keys_groupsOf: "map fst (groupsOf key xs) = firstOccurrences (map key xs)"
  by (simp add: groupsOf_def comp_def)

lemma distinct_groupsOf: "distinct (map fst (groupsOf key xs))"
  by (simp add: keys_groupsOf distinct_firstOccurrences)

lemma groupsOf_nonempty: "(k, g) \<in> set (groupsOf key xs) \<Longrightarrow> g \<noteq> []"
  by (auto simp: set_groupsOf filter_empty_conv)

lemma mset_filter_keys:
  "distinct ks \<Longrightarrow>
   mset (concat (map (\<lambda>k. filter (\<lambda>x. key x = k) xs) ks)) =
   mset (filter (\<lambda>x. key x \<in> set ks) xs)"
proof (induction ks)
  case Nil
  show ?case by simp
next
  case (Cons k ks)
  then have k: "k \<notin> set ks" and ih:
    "mset (concat (map (\<lambda>k. filter (\<lambda>x. key x = k) xs) ks)) =
     mset (filter (\<lambda>x. key x \<in> set ks) xs)"
    by simp_all
  have "mset (filter (\<lambda>x. key x = k) xs) + mset (filter (\<lambda>x. key x \<in> set ks) xs) =
        mset (filter (\<lambda>x. key x \<in> set (k # ks)) xs)"
    using k by (auto simp: multiset_eq_iff)
  then show ?case using ih by simp
qed

lemma mset_members_groupsOf: "mset (members (groupsOf key xs)) = mset xs"
proof -
  have "members (groupsOf key xs) =
        concat (map (\<lambda>k. filter (\<lambda>x. key x = k) xs) (firstOccurrences (map key xs)))"
    by (simp add: members_def groupsOf_def comp_def)
  moreover have "filter (\<lambda>x. key x \<in> set (firstOccurrences (map key xs))) xs = xs"
    by (simp add: set_firstOccurrences)
  ultimately show ?thesis
    using mset_filter_keys[OF distinct_firstOccurrences, of key xs "map key xs"] by simp
qed

lemma mset_members_entries: "mset (members (entries obj)) = mset (members obj)"
proof -
  have "mset (members obj) = sum_mset (image_mset (mset \<circ> snd) (mset obj))" for obj :: "'a list object"
    by (simp add: members_def mset_concat flip: sum_mset_sum_list)
  then show ?thesis by (simp add: mset_entries)
qed

section \<open>Well-formed snapshots are printed\<close>

lemma isAddress_not_inherited:
  assumes "isAddress k"
  shows "k \<notin> set objectPrototypeKeys"
proof
  assume "k \<in> set objectPrototypeKeys"
  then have "take 2 k \<noteq> ''0x''"
    by (auto simp: objectPrototypeKeys_def)
  then show False using assms by (simp add: isAddress_def)
qed

lemma roundHalfEven_of_int: "roundHalfEven (of_int k) = k"
  by (simp add: roundHalfEven_def)

lemma bitlen_le_53:
  assumes "0 < n" "n < 2 ^ 53"
  shows "1 \<le> bitlen n \<and> bitlen n \<le> 53"
proof -
  have b: "2 ^ nat (bitlen n - 1) \<le> n" using bitlen_bounds[OF assms(1)] by simp
  have pos: "1 \<le> bitlen n" using assms(1) bitlen_eq_zero_iff[of n] bitlen_nonneg[of n]
    by (cases "bitlen n = 0") auto
  have "bitlen n \<le> 53"
  proof (rule ccontr)
    assume "\<not> bitlen n \<le> 53"
    then have "53 \<le> nat (bitlen n - 1)" by simp
    then have "(2::int) ^ 53 \<le> 2 ^ nat (bitlen n - 1)"
      by (intro power_increasing) simp_all
    with b assms(2) show False by simp
  qed
  with pos show ?thesis by simp
qed

lemma roundDouble_of_int:
  assumes "0 \<le> n" "n < 2 ^ 53"
  shows "roundDouble (of_int n) = Finite (of_int n)"
proof (cases "n = 0")
  case True
  then show ?thesis by (simp add: roundDouble_def)
next
  case False
  with assms have pos: "0 < n" by simp
  define e where "e = bitlen n - 1"
  have e: "0 \<le> e" "e \<le> 52" using bitlen_le_53[OF pos assms(2)] by (simp_all add: e_def)
  have fl: "floorLog2 (of_int n) = e" using pos by (simp add: floorLog2_def e_def)
  have mx: "max e (- 1022) = e" using e by simp
  define k where "k = nat (52 - e)"
  have ulp: "powInt 2 (e - 52) = 1 / 2 ^ k"
  proof (cases "e = 52")
    case True
    then show ?thesis by (simp add: powInt_def k_def)
  next
    case False
    then have "\<not> 0 \<le> e - 52" using e by simp
    then show ?thesis by (simp add: powInt_def k_def)
  qed
  have q: "of_int n / (1 / 2 ^ k) = (of_int (n * 2 ^ k) :: rat)" by simp
  have m: "roundHalfEven (of_int n / (1 / 2 ^ k)) = n * 2 ^ k"
    unfolding q by (rule roundHalfEven_of_int)
  have r: "(of_int (n * 2 ^ k) :: rat) * (1 / 2 ^ k) = of_int n" by simp
  have nz: "(of_int n :: rat) \<noteq> 0" "\<not> (of_int n :: rat) < 0" "\<bar>of_int n :: rat\<bar> = of_int n"
    using pos by simp_all
  have no: "\<not> (1024 \<le> e \<or> (e = 1023 \<and> 2 ^ 53 \<le> n * 2 ^ k))" using e by simp
  show ?thesis
    unfolding roundDouble_def Let_def nz fl mx ulp m r
    using nz no by (simp only: if_False)
qed

lemma digit_not_special:
  assumes "isDigit c"
  shows "\<not> isWhiteSpace c" "c \<noteq> CHR ''-''" "c \<noteq> CHR ''+''" "c \<noteq> CHR ''x''" "c \<noteq> CHR ''X''"
proof -
  have n: "48 \<le> (of_char c :: int)" "(of_char c :: int) \<le> 57"
    using assms by (simp_all add: isDigit_def Let_def)
  have "int (of_char c) = (of_char c :: int)" by (rule of_nat_of_char)
  then have "48 \<le> (of_char c :: nat)" "(of_char c :: nat) \<le> 57" using n by linarith+
  then show "\<not> isWhiteSpace c" by (auto simp: isWhiteSpace_def)
  show "c \<noteq> CHR ''-''" "c \<noteq> CHR ''+''" "c \<noteq> CHR ''x''" "c \<noteq> CHR ''X''"
    using n by auto
qed

lemma intOfDigits_nonneg_aux:
  "list_all isDigit ds \<Longrightarrow> 0 \<le> a \<Longrightarrow> 0 \<le> foldl (\<lambda>a c. 10 * a + digitValue c) a ds"
proof (induction ds arbitrary: a)
  case Nil
  then show ?case by simp
next
  case (Cons d ds)
  then have "0 \<le> digitValue d" by (simp add: isDigit_def digitValue_def Let_def)
  then have "0 \<le> 10 * a + digitValue d" using Cons.prems by simp
  then show ?case using Cons by simp
qed

lemma intOfDigits_nonneg: "list_all isDigit ds \<Longrightarrow> 0 \<le> intOfDigits ds"
  by (simp add: intOfDigits_def intOfDigits_nonneg_aux)

lemma parseInt_digits:
  assumes "ts \<noteq> []" "list_all isDigit ts"
  shows "parseInt ts = roundDouble (of_int (intOfDigits ts))"
proof -
  obtain c cs where ts: "ts = c # cs" using assms(1) by (cases ts) auto
  have c: "isDigit c" using assms(2) ts by simp
  have ws: "dropWhile isWhiteSpace ts = ts" using digit_not_special(1)[OF c] ts by simp
  have sg: "signPart ts = (False, ts)" using digit_not_special(2,3)[OF c] ts by simp
  have px: "take 2 ts \<noteq> ''0x''" "take 2 ts \<noteq> ''0X''"
  proof -
    show "take 2 ts \<noteq> ''0x''"
    proof (cases cs)
      case Nil
      then show ?thesis using ts by simp
    next
      case (Cons d ds)
      then have "isDigit d" using assms(2) ts by simp
      then show ?thesis using digit_not_special(4)[of d] ts Cons by auto
    qed
    show "take 2 ts \<noteq> ''0X''"
    proof (cases cs)
      case Nil
      then show ?thesis using ts by simp
    next
      case (Cons d ds)
      then have "isDigit d" using assms(2) ts by simp
      then show ?thesis using digit_not_special(5)[of d] ts Cons by auto
    qed
  qed
  have tw: "takeWhile isDigit ts = ts" using assms(2) by (simp add: list_all_iff)
  show ?thesis
    unfolding parseInt_def ws sg Let_def prod.case tw
    using px assms(1) by simp
qed

lemma snapshotDate_timestamp:
  assumes "isTimestamp (timestamp s)"
  shows "snapshotDate s = Inr (of_int (intOfDigits (timestamp s) * 1000))"
proof -
  define n where "n = intOfDigits (timestamp s)"
  have ts: "timestamp s \<noteq> []" "list_all isDigit (timestamp s)" and up: "n \<le> 8640000000000"
    using assms by (simp_all add: isTimestamp_def n_def)
  have n0: "0 \<le> n" unfolding n_def by (rule intOfDigits_nonneg[OF ts(2)])
  have "n < 2 ^ 53" using up by simp
  then have p: "parseInt (timestamp s) = Finite (of_int n)"
    using parseInt_digits[OF ts] roundDouble_of_int[OF n0] by (simp add: n_def)
  have m0: "0 \<le> n * 1000" using n0 by simp
  have m1: "n * 1000 < 2 ^ 53" using up by simp
  have "multiply (Finite (of_int n)) (Finite 1000) = roundDouble (of_int (n * 1000))" by simp
  then have m: "multiply (parseInt (timestamp s)) (Finite 1000) = Finite (of_int (n * 1000))"
    using roundDouble_of_int[OF m0 m1] p by simp
  have le: "\<bar>of_int (n * 1000) :: rat\<bar> \<le> 8640000000000000"
  proof -
    have "n * 1000 \<le> 8640000000000000" using up by simp
    then have "(of_int (n * 1000) :: rat) \<le> of_int 8640000000000000" by (simp only: of_int_le_iff)
    moreover have "(0::rat) \<le> of_int (n * 1000)" using m0 by (simp only: of_int_0_le_iff)
    ultimately show ?thesis by simp
  qed
  have fl: "\<lfloor>of_int (n * 1000) :: rat\<rfloor> = n * 1000" by (rule floor_of_int)
  have nn: "(0::rat) \<le> of_int (n * 1000)" using m0 by (simp only: of_int_0_le_iff)
  have "timeClip (Finite (of_int (n * 1000))) = Finite (of_int (n * 1000))"
    using le nn fl by (simp add: timeClip_def)
  then show ?thesis by (simp add: snapshotDate_def m toISOString_def n_def)
qed

lemma printSnapshots_wellFormed:
  "\<forall>s\<in>set ss. isTimestamp (timestamp s) \<Longrightarrow> printSnapshots ss = Inr ss"
  by (induction ss) (simp_all add: snapshotDate_timestamp)

lemma printUsers_wellFormed:
  "\<forall>(u, ss)\<in>set us. \<forall>s\<in>set ss. isTimestamp (timestamp s) \<Longrightarrow> printUsers us = Inr us"
  by (induction us) (auto simp: printSnapshots_wellFormed)

section \<open>Properties of the grouping by pool and user\<close>

lemma userGroups_groupsOf:
  assumes "\<forall>(p, g)\<in>set gs. \<forall>s\<in>set g. isAddress (owner s) \<and> isTimestamp (timestamp s)"
  shows "userGroups gs = Inr (map (\<lambda>(p, g). (p, entries (groupsOf owner g))) gs)"
  using assms
proof (induction gs)
  case Nil
  show ?case by simp
next
  case (Cons pg gs)
  obtain p g where pg: "pg = (p, g)" by (cases pg)
  have wf: "\<forall>s\<in>set g. isAddress (owner s) \<and> isTimestamp (timestamp s)"
    using Cons.prems pg by simp
  then have "\<forall>s\<in>set g. owner s \<notin> set objectPrototypeKeys"
    using isAddress_not_inherited by metis
  then have byUser: "snapshotsByUser g = Inr (groupsOf owner g)"
    unfolding snapshotsByUser_def by (rule groupInto_groupsOf)
  have "\<forall>s\<in>set ss. isTimestamp (timestamp s)" if "(u, ss) \<in> set (entries (groupsOf owner g))" for u ss
  proof -
    have "ss = filter (\<lambda>s. owner s = u) g"
      using that by (simp add: set_entries set_groupsOf)
    then show ?thesis using wf by simp
  qed
  then have "\<forall>(u, ss)\<in>set (entries (groupsOf owner g)). \<forall>s\<in>set ss. isTimestamp (timestamp s)"
    by fastforce
  then have printed: "printUsers (entries (groupsOf owner g)) = Inr (entries (groupsOf owner g))"
    by (rule printUsers_wellFormed)
  have "userGroups gs = Inr (map (\<lambda>(p, g). (p, entries (groupsOf owner g))) gs)"
    using Cons by simp
  then show ?case by (simp add: pg byUser printed)
qed

lemma poolGroups_groupsOf:
  assumes "\<forall>s\<in>set snapshots. wellFormed s"
  shows "poolGroups snapshots =
         Inr (map (\<lambda>(p, g). (p, entries (groupsOf owner g)))
                (entries (groupsOf (\<lambda>s. poolId (pool s)) snapshots)))"
proof -
  let ?G = "groupsOf (\<lambda>s. poolId (pool s)) snapshots"
  have "\<forall>s\<in>set snapshots. poolId (pool s) \<notin> set objectPrototypeKeys"
    using assms isAddress_not_inherited by (metis wellFormed_def)
  then have byPool: "snapshotsByPool snapshots = Inr ?G"
    unfolding snapshotsByPool_def by (rule groupInto_groupsOf)
  have "\<forall>s\<in>set g. isAddress (owner s) \<and> isTimestamp (timestamp s)"
    if "(p, g) \<in> set (entries ?G)" for p g
  proof -
    have "g = filter (\<lambda>s. poolId (pool s) = p) snapshots"
      using that by (simp add: set_entries set_groupsOf)
    then show ?thesis using assms by (simp add: wellFormed_def)
  qed
  then have "\<forall>(p, g)\<in>set (entries ?G). \<forall>s\<in>set g. isAddress (owner s) \<and> isTimestamp (timestamp s)"
    by fastforce
  then have "userGroups (entries ?G) = Inr (map (\<lambda>(p, g). (p, entries (groupsOf owner g))) (entries ?G))"
    by (rule userGroups_groupsOf)
  then show ?thesis by (simp add: poolGroups_def byPool)
qed

lemma mset_members_userGroups:
  "mset (concat (map snd (concat (map snd (map (\<lambda>(p, g). (p, entries (groupsOf owner g))) gs))))) =
   mset (members gs)"
proof (induction gs)
  case Nil
  show ?case by (simp add: members_def)
next
  case (Cons pg gs)
  obtain p g where pg: "pg = (p, g)" by (cases pg)
  have "mset (concat (map snd (entries (groupsOf owner g)))) = mset g"
    using mset_members_entries[of "groupsOf owner g"] mset_members_groupsOf[of owner g]
    by (simp add: members_def)
  then show ?case using Cons.IH by (simp add: pg members_def)
qed

text \<open>
  Claim C5. For every sequence of well-formed snapshots (pool ids and owners that are
  addresses, timestamps that are dates), the loops of \<^verbatim>\<open>displayPositionSnapshots\<close>
  run to their end and the grouping by pool and then by owner partitions the input: the
  pool ids of the groups are distinct, the owners inside a pool group are distinct,
  each owner subgroup is not empty and holds exactly the snapshots of its pool and
  owner in their original order, and all subgroups together hold every input snapshot
  once and nothing else.
\<close>

theorem C5_pool_user_partition:
  assumes "\<forall>s\<in>set snapshots. wellFormed s"
  shows "\<exists>groups. poolGroups snapshots = Inr groups \<and>
           distinct (map fst groups) \<and>
           (\<forall>(p, users)\<in>set groups.
              distinct (map fst users) \<and>
              (\<forall>(u, ss)\<in>set users.
                 ss \<noteq> [] \<and>
                 ss = filter (\<lambda>s. poolId (pool s) = p \<and> owner s = u) snapshots)) \<and>
           mset (concat (map snd (concat (map snd groups)))) = mset snapshots"
proof -
  let ?G = "groupsOf (\<lambda>s. poolId (pool s)) snapshots"
  let ?groups = "map (\<lambda>(p, g). (p, entries (groupsOf owner g))) (entries ?G)"
  have res: "poolGroups snapshots = Inr ?groups" by (rule poolGroups_groupsOf[OF assms])
  have "map fst (map (\<lambda>(p, g). (p, entries (groupsOf owner g))) gs) = map fst gs"
    for gs :: "(string \<times> snapshot list) list"
    by (induction gs) auto
  then have d: "distinct (map fst ?groups)"
    using distinct_keys_entries[OF distinct_groupsOf, of "\<lambda>s. poolId (pool s)" snapshots]
    by (simp only:)
  have inner: "distinct (map fst users) \<and>
      (\<forall>(u, ss)\<in>set users.
         ss \<noteq> [] \<and> ss = filter (\<lambda>s. poolId (pool s) = p \<and> owner s = u) snapshots)"
    if "(p, users) \<in> set ?groups" for p users
  proof -
    from that obtain g where g: "(p, g) \<in> set (entries ?G)"
      and users: "users = entries (groupsOf owner g)" by auto
    have geq: "g = filter (\<lambda>s. poolId (pool s) = p) snapshots"
      using g by (simp add: set_entries set_groupsOf)
    have "distinct (map fst users)"
      unfolding users by (rule distinct_keys_entries[OF distinct_groupsOf])
    moreover have "ss \<noteq> [] \<and> ss = filter (\<lambda>s. poolId (pool s) = p \<and> owner s = u) snapshots"
      if "(u, ss) \<in> set users" for u ss
    proof -
      have m: "(u, ss) \<in> set (groupsOf owner g)" using that by (simp add: users set_entries)
      then have "ss = filter (\<lambda>s. owner s = u) g" by (simp add: set_groupsOf)
      then have "ss = filter (\<lambda>s. poolId (pool s) = p \<and> owner s = u) snapshots"
        by (simp add: geq)
      then show ?thesis using groupsOf_nonempty[OF m] by simp
    qed
    ultimately show ?thesis by auto
  qed
  have "mset (concat (map snd (concat (map snd ?groups)))) = mset (members (entries ?G))"
    by (rule mset_members_userGroups)
  then have m: "mset (concat (map snd (concat (map snd ?groups)))) = mset snapshots"
    by (simp only: mset_members_entries mset_members_groupsOf)
  have all: "\<forall>(p, users)\<in>set ?groups.
          distinct (map fst users) \<and>
          (\<forall>(u, ss)\<in>set users.
             ss \<noteq> [] \<and> ss = filter (\<lambda>s. poolId (pool s) = p \<and> owner s = u) snapshots)"
  proof (rule ballI)
    fix pu assume pu: "pu \<in> set ?groups"
    obtain p users where e: "pu = (p, users)" by (cases pu)
    show "case pu of (p, users) \<Rightarrow>
          distinct (map fst users) \<and>
          (\<forall>(u, ss)\<in>set users.
             ss \<noteq> [] \<and> ss = filter (\<lambda>s. poolId (pool s) = p \<and> owner s = u) snapshots)"
      unfolding e prod.case by (rule inner) (use pu e in simp)
  qed
  show ?thesis
    by (rule exI[of _ ?groups]) (intro conjI res d all m)
qed

lemma wellFormed_snapshotOf:
  "isAddress p \<Longrightarrow> isAddress u \<Longrightarrow> wellFormed (snapshotOf p u i)"
proof -
  have "isTimestamp ''1757500000''" by code_simp
  then show "isAddress p \<Longrightarrow> isAddress u \<Longrightarrow> wellFormed (snapshotOf p u i)"
    by (simp add: wellFormed_def snapshotOf_def mkSnapshot_def)
qed

lemma example_addresses: "isAddress ''0xa1''" "isAddress ''0xb2''" "isAddress ''0xc06e''" "isAddress ''0xd4''"
  by code_simp+

text \<open>The theorem of claim C5 at four well-formed snapshots of two pools and two owners.\<close>

theorem C5_witness:
  "poolGroups [snapshotOf ''0xc06e'' ''0xa1'' None, snapshotOf ''0xd4'' ''0xa1'' None,
               snapshotOf ''0xc06e'' ''0xb2'' None, snapshotOf ''0xc06e'' ''0xa1'' (Some ''7'')] =
     Inr [(''0xc06e'', [(''0xa1'', [snapshotOf ''0xc06e'' ''0xa1'' None,
                                    snapshotOf ''0xc06e'' ''0xa1'' (Some ''7'')]),
                        (''0xb2'', [snapshotOf ''0xc06e'' ''0xb2'' None])]),
          (''0xd4'', [(''0xa1'', [snapshotOf ''0xd4'' ''0xa1'' None])])] \<and>
   wellFormed (snapshotOf ''0xc06e'' ''0xa1'' None)"
proof -
  let ?xs = "[snapshotOf ''0xc06e'' ''0xa1'' None, snapshotOf ''0xd4'' ''0xa1'' None,
              snapshotOf ''0xc06e'' ''0xb2'' None, snapshotOf ''0xc06e'' ''0xa1'' (Some ''7'')]"
  have ok: "\<forall>s\<in>set ?xs. wellFormed s"
    by (simp add: wellFormed_snapshotOf example_addresses)
  from C5_pool_user_partition[OF ok] obtain groups where g: "poolGroups ?xs = Inr groups"
    and d: "distinct (map fst groups)"
    and m: "mset (concat (map snd (concat (map snd groups)))) = mset ?xs" by blast
  have "poolGroups ?xs = Inr [(''0xc06e'', [(''0xa1'', [snapshotOf ''0xc06e'' ''0xa1'' None,
                                    snapshotOf ''0xc06e'' ''0xa1'' (Some ''7'')]),
                        (''0xb2'', [snapshotOf ''0xc06e'' ''0xb2'' None])]),
          (''0xd4'', [(''0xa1'', [snapshotOf ''0xd4'' ''0xa1'' None])])]"
    by code_simp
  then show ?thesis using g ok by simp
qed

text \<open>
  Outside the data model the loops stop early: a key named like a property that objects
  inherit finds that property instead of a group, and a timestamp that is no date
  cannot be printed.
\<close>

lemma poolGroups_inherited_key:
  "poolGroups [snapshotOf ''0xc06e'' ''constructor'' None] = Inl TypeError"
  by code_simp

lemma poolGroups_invalid_date:
  "poolGroups [mkSnapshot ''0xc06e'' ''0xa1'' None] = Inl RangeError"
  by code_simp

section \<open>Properties of the formatter\<close>

lemma isDigit_digitChar: "0 \<le> d \<Longrightarrow> d < 10 \<Longrightarrow> isDigit (digitChar d)"
  by (simp add: isDigit_def digitChar_def)

lemma digitsOf_digits: "0 \<le> n \<Longrightarrow> list_all isDigit (digitsOf n)"
proof (induction n rule: digitsOf.induct)
  case (1 n)
  show ?case
  proof (cases "n < 10")
    case True
    with "1.prems" show ?thesis by (subst digitsOf.simps) (simp add: isDigit_digitChar)
  next
    case False
    then have "list_all isDigit (digitsOf (n div 10))"
      using "1.IH" "1.prems" by simp
    moreover have "isDigit (digitChar (n mod 10))"
      by (rule isDigit_digitChar) simp_all
    ultimately show ?thesis using False by (subst digitsOf.simps) simp
  qed
qed

lemma digitsOf_not_Nil: "digitsOf n \<noteq> []"
  by (subst digitsOf.simps) simp

lemma not_isDigit_point: "\<not> isDigit CHR ''.''"
  by (simp add: isDigit_def)

lemma not_isDigit_minus: "\<not> isDigit CHR ''-''"
  by (simp add: isDigit_def)

lemma isFixedDecimal_parts:
  assumes "ip \<noteq> []" "list_all isDigit ip" "list_all isDigit fp" "length fp = n"
  shows "isFixedDecimal n (ip @ ''.'' @ fp)" "isFixedDecimal n (''-'' @ ip @ ''.'' @ fp)"
proof -
  obtain c cs where ip: "ip = c # cs" using assms(1) by (cases ip) auto
  have c: "isDigit c" using assms(2) ip by simp
  then have cm: "c \<noteq> CHR ''-''" using not_isDigit_minus by auto
  have tw: "takeWhile isDigit (ip @ CHR ''.'' # fp) = ip"
    using assms(2) not_isDigit_point by (simp add: takeWhile_append2 list_all_iff)
  have dw: "dropWhile isDigit (ip @ CHR ''.'' # fp) = CHR ''.'' # fp"
    using assms(2) not_isDigit_point by (simp add: dropWhile_append2 list_all_iff)
  show "isFixedDecimal n (ip @ ''.'' @ fp)"
    using assms cm tw dw by (simp add: isFixedDecimal_def ip)
  show "isFixedDecimal n (''-'' @ ip @ ''.'' @ fp)"
    using assms tw dw by (simp add: isFixedDecimal_def)
qed

lemma fixedDigits_shape:
  assumes "0 \<le> a" "f \<noteq> 0"
  shows "\<exists>ip fp. fixedDigits a f = ip @ ''.'' @ fp \<and> ip \<noteq> [] \<and> list_all isDigit ip \<and>
                 list_all isDigit fp \<and> length fp = f"
proof -
  define n where "n = \<lfloor>a * 10 ^ f + 1 / 2\<rfloor>"
  define m where "m = (if n = 0 then ''0'' else digitsOf n)"
  define m' where "m' = (if length m \<le> f then replicate (f + 1 - length m) CHR ''0'' @ m else m)"
  have n0: "0 \<le> n" using assms(1) by (simp add: n_def)
  have md: "list_all isDigit m" using n0 by (simp add: m_def digitsOf_digits isDigit_def)
  have z: "isDigit CHR ''0''" by (simp add: isDigit_def)
  have m'd: "list_all isDigit m'" using md z by (simp add: m'_def list_all_iff)
  have mne: "m \<noteq> []" by (simp add: m_def digitsOf_not_Nil)
  have len: "f < length m'" using mne by (auto simp: m'_def)
  have eq: "fixedDigits a f = take (length m' - f) m' @ ''.'' @ drop (length m' - f) m'"
    using assms(2) by (simp add: fixedDigits_def Let_def n_def m_def m'_def)
  show ?thesis
    apply (rule exI[of _ "take (length m' - f) m'"])
    apply (rule exI[of _ "drop (length m' - f) m'"])
    using eq m'd len by (auto simp: list_all_iff dest: in_set_takeD in_set_dropD)
qed


lemma toFixed_fixed:
  assumes "\<bar>x\<bar> < 10 ^ 21" "f \<noteq> 0"
  shows "isFixedDecimal f (toFixed (Finite x) f)"
proof -
  obtain ip fp where sh: "fixedDigits \<bar>x\<bar> f = ip @ ''.'' @ fp" "ip \<noteq> []"
      "list_all isDigit ip" "list_all isDigit fp" "length fp = f"
    using fixedDigits_shape[of "\<bar>x\<bar>" f] assms(2) by auto
  show ?thesis
  proof (cases "x < 0")
    case True
    then have "toFixed (Finite x) f = ''-'' @ ip @ ''.'' @ fp"
      using assms(1) sh(1) by (simp add: Let_def)
    then show ?thesis using isFixedDecimal_parts(2)[OF sh(2-5)] by simp
  next
    case False
    then have "toFixed (Finite x) f = ip @ ''.'' @ fp"
      using assms(1) sh(1) by (simp add: Let_def)
    then show ?thesis using isFixedDecimal_parts(1)[OF sh(2-5)] by simp
  qed
qed

lemma parseFloat_Nil: "parseFloat [] = NaN"
  by (simp add: parseFloat_def)

lemma parseFloat_zero: "parseFloat ''0'' = Finite 0"
  by code_simp

lemma formatTokenAmount_nonzero:
  assumes "parseFloat a = Finite x" "x \<noteq> 0"
  shows "formatTokenAmount (Some a) =
         (if 1 \<le> x then toFixed (Finite x) 6 else toFixed (Finite x) 12)"
proof -
  have "a \<noteq> []" "a \<noteq> ''0''"
    using assms parseFloat_Nil parseFloat_zero by auto
  then show ?thesis
    using assms
    by (auto simp: formatTokenAmount_def Let_def strictEquals_def greaterEq_def)
qed

text \<open>
  Claim C2, as the code has it. The code compares the parsed value itself with 1, not
  its magnitude, and \<^verbatim>\<open>toFixed\<close> prints fraction digits only below \<open>10 ^ 21\<close>. So:
  an amount whose parsed value \<open>x\<close> has \<open>1 \<le> x < 10 ^ 21\<close> is printed as a decimal
  string with exactly 6 fraction digits, and an amount whose parsed value is not zero
  and has \<open>- 10 ^ 21 < x < 1\<close> (every magnitude strictly between 0 and 1, and the
  negative values too) with exactly 12.
\<close>

theorem C2_fraction_digits:
  "(parseFloat a = Finite x \<and> 1 \<le> x \<and> x < 10 ^ 21 \<longrightarrow>
      isFixedDecimal 6 (formatTokenAmount (Some a))) \<and>
   (parseFloat a = Finite x \<and> x \<noteq> 0 \<and> - (10 ^ 21) < x \<and> x < 1 \<longrightarrow>
      isFixedDecimal 12 (formatTokenAmount (Some a)))"
proof (intro conjI impI)
  assume h: "parseFloat a = Finite x \<and> 1 \<le> x \<and> x < 10 ^ 21"
  then have "formatTokenAmount (Some a) = toFixed (Finite x) 6"
    using formatTokenAmount_nonzero[of a x] by simp
  moreover have "\<bar>x\<bar> < 10 ^ 21" using h by simp
  ultimately show "isFixedDecimal 6 (formatTokenAmount (Some a))"
    using toFixed_fixed[of x 6] by simp
next
  assume h: "parseFloat a = Finite x \<and> x \<noteq> 0 \<and> - (10 ^ 21) < x \<and> x < 1"
  then have "formatTokenAmount (Some a) = toFixed (Finite x) 12"
    using formatTokenAmount_nonzero[of a x] by simp
  moreover have "\<bar>x\<bar> < 10 ^ 21" using h by (simp add: abs_less_iff)
  ultimately show "isFixedDecimal 12 (formatTokenAmount (Some a))"
    using toFixed_fixed[of x 12] by simp
qed


lemma digitsOf_length_lower: "1 \<le> m \<Longrightarrow> 10 ^ (length (digitsOf m) - 1) \<le> m"
proof (induction m rule: digitsOf.induct)
  case (1 n)
  show ?case
  proof (cases "n < 10")
    case True
    with "1.prems" show ?thesis by (subst digitsOf.simps) simp
  next
    case False
    then have ih: "10 ^ (length (digitsOf (n div 10)) - 1) \<le> n div 10"
      using "1.IH" by simp
    have len: "length (digitsOf n) = Suc (length (digitsOf (n div 10)))"
      using False by (subst digitsOf.simps) simp
    have pos: "0 < length (digitsOf (n div 10))"
      using digitsOf_not_Nil by simp
    then have "(10::int) ^ (length (digitsOf n) - 1) = 10 * 10 ^ (length (digitsOf (n div 10)) - 1)"
      using len by (cases "length (digitsOf (n div 10))") simp_all
    also have "\<dots> \<le> 10 * (n div 10)" using ih by simp
    also have "\<dots> \<le> n" using False by simp
    finally show ?thesis .
  qed
qed

lemma digitsOf_eq_zero: "1 \<le> s \<Longrightarrow> digitsOf s \<noteq> ''0''"
proof
  assume s: "1 \<le> s" and eq: "digitsOf s = ''0''"
  show False
  proof (cases "s < 10")
    case True
    then have "digitChar s = CHR ''0''" using eq by (subst (asm) digitsOf.simps) simp
    then have "of_char (digitChar s) = (of_char CHR ''0'' :: int)" by simp
    then show False using s True by (simp add: digitChar_def)
  next
    case False
    then have "digitsOf (n div 10) @ [c] = ''0''" if "n = s" "c = digitChar (s mod 10)" for n c
      using eq that by (subst (asm) digitsOf.simps) simp
    then have "digitsOf (s div 10) = []" by simp
    then show False using digitsOf_not_Nil by simp
  qed
qed

lemma powInt_le_power:
  assumes "1 \<le> k" "1 \<le> l"
  shows "powInt 10 (int l - int k) \<le> 10 ^ (l - 1)"
proof (cases "0 \<le> int l - int k")
  case True
  then have "nat (int l - int k) \<le> l - 1" using assms by simp
  then have "(10::rat) ^ nat (int l - int k) \<le> 10 ^ (l - 1)"
    by (intro power_increasing) simp_all
  then show ?thesis using True by (simp add: powInt_def)
next
  case False
  have "1 / (10::rat) ^ nat (- (int l - int k)) \<le> 1" by simp
  also have "\<dots> \<le> 10 ^ (l - 1)" by simp
  finally show ?thesis using False by (simp add: powInt_def)
qed

lemma digitCandidates_pos:
  assumes "1 \<le> y" "1 \<le> k" "c \<in> set (digitCandidates y k)"
  shows "1 \<le> snd c"
proof -
  define l where "l = length (digitsOf \<lfloor>y\<rfloor>)"
  have fl: "1 \<le> \<lfloor>y\<rfloor>" using assms(1) by simp
  have l1: "1 \<le> l" using digitsOf_not_Nil[of "\<lfloor>y\<rfloor>"] by (simp add: l_def Suc_le_eq)
  have n: "decimalExponent y = int l" using assms(1) by (simp add: decimalExponent_def l_def)
  have "(10::int) ^ (l - 1) \<le> \<lfloor>y\<rfloor>" unfolding l_def by (rule digitsOf_length_lower[OF fl])
  then have "(of_int ((10::int) ^ (l - 1)) :: rat) \<le> y" by (simp only: le_floor_iff)
  then have low: "(10::rat) ^ (l - 1) \<le> y" by simp
  have p: "0 < powInt 10 (int l - int k)" by (simp add: powInt_def)
  have "powInt 10 (int l - int k) \<le> y"
    using powInt_le_power[OF assms(2) l1] low by simp
  then have v: "1 \<le> y / powInt 10 (int l - int k)" using p by (simp add: le_divide_eq)
  then have lo: "1 \<le> \<lfloor>y / powInt 10 (int l - int k)\<rfloor>" by simp
  have hi: "1 \<le> \<lceil>y / powInt 10 (int l - int k)\<rceil>" using v by (simp add: le_ceiling_iff)
  have k: "(1::int) \<le> 10 ^ (k - 1)" by simp
  show ?thesis
    using assms(3) lo hi k by (auto simp: digitCandidates_def Let_def n split: if_splits)
qed

lemma foldl_closer_in: "foldl (closer x k) c cs \<in> set (c # cs)"
proof (induction cs arbitrary: c)
  case Nil
  show ?case by simp
next
  case (Cons d cs)
  have "closer x k c d = c \<or> closer x k c d = d" by (simp add: closer_def Let_def)
  then show ?case using Cons.IH[of "closer x k c d"] by auto
qed

lemma shortestDigits_pos:
  assumes "1 \<le> y"
  shows "1 \<le> snd (snd (shortestDigits y))"
proof (cases "List.find (\<lambda>k. validDigits y k \<noteq> []) [1..<17]")
  case None
  define cs where "cs = digitCandidates y 17"
  have ne: "cs \<noteq> []" by (simp add: cs_def digitCandidates_def Let_def)
  have "foldl (closer y 17) (hd cs) (tl cs) \<in> set (hd cs # tl cs)" by (rule foldl_closer_in)
  then have "foldl (closer y 17) (hd cs) (tl cs) \<in> set cs"
    using ne by (cases cs) simp_all
  then have "foldl (closer y 17) (hd cs) (tl cs) \<in> set (digitCandidates y 17)"
    by (simp only: cs_def)
  then have "1 \<le> snd (foldl (closer y 17) (hd cs) (tl cs))"
    using digitCandidates_pos[OF assms, of 17] by simp
  then show ?thesis using None by (simp add: shortestDigits_def Let_def cs_def)
next
  case (Some k)
  then have k: "1 \<le> k" and ne: "validDigits y k \<noteq> []"
    by (auto simp: find_Some_iff)
  define cs where "cs = validDigits y k"
  have "foldl (closer y k) (hd cs) (tl cs) \<in> set (hd cs # tl cs)" by (rule foldl_closer_in)
  then have "foldl (closer y k) (hd cs) (tl cs) \<in> set cs"
    using ne unfolding cs_def[symmetric] by (cases cs) simp_all
  then have "foldl (closer y k) (hd cs) (tl cs) \<in> set (digitCandidates y k)"
    by (auto simp: cs_def validDigits_def)
  then have "1 \<le> snd (foldl (closer y k) (hd cs) (tl cs))"
    using digitCandidates_pos[OF assms k] by simp
  then show ?thesis using Some by (simp add: shortestDigits_def Let_def cs_def)
qed

lemma positiveToString_not_zero:
  assumes "1 \<le> y"
  shows "positiveToString y \<noteq> ''0''"
proof -
  obtain n k s where sd: "shortestDigits y = (n, k, s)" by (cases "shortestDigits y") auto
  then have s: "1 \<le> s" using shortestDigits_pos[OF assms] by simp
  have z: "digitsOf s \<noteq> ''0''" by (rule digitsOf_eq_zero[OF s])
  have ne: "digitsOf s \<noteq> []" by (rule digitsOf_not_Nil)
  have a: "digitsOf s @ replicate m CHR ''0'' \<noteq> ''0''" for m
    using z ne by (cases "digitsOf s") (auto simp: Cons_eq_append_conv)
  have pt: "CHR ''.'' \<notin> set ''0''" and e: "CHR ''e'' \<notin> set ''0''" by simp_all
  have b: "u @ ''.'' @ w \<noteq> ''0''" for u w :: string
    using pt by (metis append_Cons in_set_conv_decomp)
  have c: "u @ exponentString n \<noteq> ''0''" for u :: string
  proof
    assume "u @ exponentString n = ''0''"
    then have "CHR ''e'' \<in> set ''0''"
      unfolding exponentString_def by (metis append_Cons in_set_conv_decomp append_assoc)
    then show False by simp
  qed
  have d: "take 1 (digitsOf s) @ ''.'' @ drop 1 (digitsOf s) @ exponentString n \<noteq> ''0''"
    using b by blast
  show ?thesis
    unfolding positiveToString_def sd Let_def prod.case
    using a b c d by (auto simp del: replicate.simps)
qed

lemma toFixed_not_zero:
  assumes "num \<noteq> Finite 0" "f \<noteq> 0"
  shows "toFixed num f \<noteq> ''0''"
proof (cases num)
  case (Finite x)
  then have x: "x \<noteq> 0" using assms(1) by simp
  show ?thesis
  proof (cases "10 ^ 21 \<le> \<bar>x\<bar>")
    case True
    have "(1::rat) \<le> 10 ^ 21" by simp
    then have one: "1 \<le> \<bar>x\<bar>" using True by (rule order_trans)
    have "positiveToString \<bar>x\<bar> \<noteq> ''0''" by (rule positiveToString_not_zero[OF one])
    moreover have "toFixed num f = (if x < 0 then ''-'' @ positiveToString \<bar>x\<bar> else positiveToString \<bar>x\<bar>)"
      using True x Finite by (simp add: Let_def)
    ultimately show ?thesis by (cases "x < 0") simp_all
  next
    case False
    obtain ip fp where sh: "fixedDigits \<bar>x\<bar> f = ip @ ''.'' @ fp" "ip \<noteq> []"
      using fixedDigits_shape[of "\<bar>x\<bar>" f] assms(2) by auto
    have "length (s @ fixedDigits \<bar>x\<bar> f) \<noteq> length ''0''" for s
      using sh by (cases ip) simp_all
    then have "s @ fixedDigits \<bar>x\<bar> f \<noteq> ''0''" for s
      by metis
    then show ?thesis using False Finite by (simp add: Let_def)
  qed
qed simp_all

text \<open>
  Claim C3. \<^verbatim>\<open>formatTokenAmount\<close> returns the string \<^verbatim>\<open>"0"\<close> if and only if the
  amount is absent or empty, or its parsed value is exactly zero.
\<close>

theorem C3_zero_iff:
  "formatTokenAmount amount = ''0'' \<longleftrightarrow>
     (amount = None \<or> amount = Some [] \<or> (\<exists>a. amount = Some a \<and> parseFloat a = Finite 0))"
proof (cases amount)
  case None
  then show ?thesis by (simp add: formatTokenAmount_def)
next
  case (Some a)
  show ?thesis
  proof (cases "a = [] \<or> a = ''0''")
    case True
    then show ?thesis using Some parseFloat_zero by (auto simp: formatTokenAmount_def)
  next
    case False
    show ?thesis
    proof (cases "parseFloat a = Finite 0")
      case True
      then show ?thesis using Some False by (simp add: formatTokenAmount_def strictEquals_def)
    next
      case nz: False
      then have "toFixed (parseFloat a) 6 \<noteq> ''0''" "toFixed (parseFloat a) 12 \<noteq> ''0''"
        by (simp_all add: toFixed_not_zero)
      then show ?thesis
        using Some False nz by (simp add: formatTokenAmount_def strictEquals_def Let_def)
    qed
  qed
qed

lemma parseFloat_minus_five: "parseFloat ''-5'' = Finite (- 5)"
  by code_simp

lemma formatTokenAmount_minus_five: "formatTokenAmount (Some ''-5'') = ''-5.000000000000''"
  by code_simp

lemma parseFloat_two: "parseFloat ''2'' = Finite 2"
  by code_simp

lemma formatTokenAmount_two: "formatTokenAmount (Some ''2'') = ''2.000000''"
  by code_simp

text \<open>
  Claim C2 as stated fails for a negative amount of magnitude 1 or more: the parsed
  value of \<^verbatim>\<open>"-5"\<close> is not \<open>\<ge> 1\<close>, so it is printed with 12 fraction digits.
\<close>

theorem C2_counterexample:
  "parseFloat ''-5'' = Finite (- 5) \<and> 1 \<le> \<bar>- 5 :: rat\<bar> \<and>
   formatTokenAmount (Some ''-5'') = ''-5.000000000000'' \<and>
   \<not> isFixedDecimal 6 (formatTokenAmount (Some ''-5''))"
proof -
  have "\<not> isFixedDecimal 6 ''-5.000000000000''" by code_simp
  then show ?thesis
    using parseFloat_minus_five formatTokenAmount_minus_five by simp
qed

text \<open>The theorem of claim C2 at the amounts \<^verbatim>\<open>"2"\<close> and \<^verbatim>\<open>"-5"\<close>.\<close>

theorem C2_witness:
  "isFixedDecimal 6 (formatTokenAmount (Some ''2'')) \<and>
   isFixedDecimal 12 (formatTokenAmount (Some ''-5''))"
  using C2_fraction_digits[of "''2''" 2] C2_fraction_digits[of "''-5''" "- 5"]
    parseFloat_two parseFloat_minus_five
  by simp

text \<open>The theorem of claim C3 at the amounts \<^verbatim>\<open>"0.0"\<close> and \<^verbatim>\<open>"2"\<close>.\<close>

theorem C3_witness:
  "formatTokenAmount (Some ''0.0'') = ''0'' \<and> formatTokenAmount (Some ''2'') \<noteq> ''0''"
proof -
  have a: "parseFloat ''0.0'' = Finite 0" by code_simp
  have b: "parseFloat ''2'' \<noteq> Finite 0" using parseFloat_two by simp
  show ?thesis
    using C3_zero_iff[of "Some ''0.0''"] C3_zero_iff[of "Some ''2''"] a b by simp
qed

section \<open>Properties of the fetchers\<close>

lemma fetchPoolInfo_cases:
  "fetchPoolInfo net s =
     (case net (length (requests s)) of
        Rejected m \<Rightarrow>
          (Inl (TransportFailure m),
           report ''Error fetching pool info:'' (TransportFailure m) (send (PoolInfoRequest POOL_ID) s))
      | Decoded b \<Rightarrow>
          (case errors b of
             Some es \<Rightarrow>
               (Inl (GraphQLErrors es),
                report ''Error fetching pool info:'' (GraphQLErrors es) (send (PoolInfoRequest POOL_ID) s))
           | None \<Rightarrow>
               (case data b of
                  None \<Rightarrow>
                    (Inl TypeError,
                     report ''Error fetching pool info:'' TypeError (send (PoolInfoRequest POOL_ID) s))
                | Some None \<Rightarrow>
                    (Inl (PoolNotFound POOL_ID),
                     report ''Error fetching pool info:'' (PoolNotFound POOL_ID)
                       (send (PoolInfoRequest POOL_ID) s))
                | Some (Some p) \<Rightarrow> (Inr p, send (PoolInfoRequest POOL_ID) s))))"
  by (simp add: fetchPoolInfo_def Let_def split: reply.splits option.splits)

lemma fetchKHypePools_failed:
  assumes "failed (net (length (requests s)))"
  shows "\<exists>e. fetchKHypePools net s =
           (Inl e, report ''Error fetching K-HYPE pools:'' e (send AllPoolsRequest s))"
  using assms
  by (auto simp: fetchKHypePools_def Let_def failed_def transportFailed_def carriesErrors_def
        dataAbsent_def split: reply.splits option.splits)

lemma fetchKHypePools_ok:
  assumes "\<not> failed (net (length (requests s)))"
  shows "\<exists>b allPools. net (length (requests s)) = Decoded b \<and> data b = Some allPools \<and>
           fetchKHypePools net s = (Inr (filter isKHypePool allPools), send AllPoolsRequest s)"
  using assms
  by (auto simp: fetchKHypePools_def Let_def failed_def transportFailed_def carriesErrors_def
        dataAbsent_def split: reply.splits option.splits)

lemma fetchPoolInfo_spec:
  assumes a: "fetchPoolInfo net s = (res, s')"
  shows "requests s' = requests s @ [PoolInfoRequest POOL_ID] \<and>
      (isl res \<longleftrightarrow>
         transportFailed (net (length (requests s))) \<or>
         carriesErrors (net (length (requests s))) \<or>
         poolAbsent (net (length (requests s)))) \<and>
      (\<forall>e. res = Inl e \<longrightarrow> reported s' = reported s @ [(''Error fetching pool info:'', e)]) \<and>
      (\<forall>p. res = Inr p \<longrightarrow>
         reported s' = reported s \<and>
         (\<exists>b. net (length (requests s)) = Decoded b \<and> data b = Some (Some p)))"
proof (intro conjI)
  show "requests s' = requests s @ [PoolInfoRequest POOL_ID]"
    using a unfolding fetchPoolInfo_cases
    by (auto simp: send_def report_def split: reply.splits option.splits)
  show "isl res \<longleftrightarrow>
         transportFailed (net (length (requests s))) \<or>
         carriesErrors (net (length (requests s))) \<or>
         poolAbsent (net (length (requests s)))"
    using a unfolding fetchPoolInfo_cases
    by (auto simp: transportFailed_def carriesErrors_def poolAbsent_def
          split: reply.splits option.splits)
  show "\<forall>e. res = Inl e \<longrightarrow> reported s' = reported s @ [(''Error fetching pool info:'', e)]"
    using a unfolding fetchPoolInfo_cases
    by (auto simp: send_def report_def split: reply.splits option.splits)
  show "\<forall>p. res = Inr p \<longrightarrow>
         reported s' = reported s \<and>
         (\<exists>b. net (length (requests s)) = Decoded b \<and> data b = Some (Some p))"
    using a unfolding fetchPoolInfo_cases
    by (auto simp: send_def report_def split: reply.splits option.splits)
qed

lemma fetchKHypePositionSnapshots_spec:
  assumes a: "fetchKHypePositionSnapshots poolsNet snapshotsNet since s = (out, t)"
  shows "(failed (poolsNet (length (requests s))) \<longrightarrow>
         isl out \<and> requests t = requests s @ [AllPoolsRequest]) \<and>
      (\<not> failed (poolsNet (length (requests s))) \<longrightarrow>
         (\<exists>ids. requests t = requests s @ [AllPoolsRequest, PositionSnapshotsRequest ids since]) \<and>
         (isl out \<longleftrightarrow> failed (snapshotsNet (Suc (length (requests s)))))) \<and>
      (\<forall>e. out = Inl e \<longrightarrow>
         reported t \<noteq> [] \<and> last (reported t) = (''Error fetching position snapshots:'', e)) \<and>
      (\<forall>xs. out = Inr xs \<longrightarrow>
         reported t = reported s \<and>
         (\<exists>b. snapshotsNet (Suc (length (requests s))) = Decoded b \<and> data b = Some xs))"
proof (cases "failed (poolsNet (length (requests s)))")
  case True
  from fetchKHypePools_failed[of poolsNet s, OF True] obtain e where
    "fetchKHypePools poolsNet s =
       (Inl e, report ''Error fetching K-HYPE pools:'' e (send AllPoolsRequest s))" by blast
  then have "out = Inl e" "requests t = requests s @ [AllPoolsRequest]"
    "reported t = reported s @ [(''Error fetching K-HYPE pools:'', e),
                               (''Error fetching position snapshots:'', e)]"
    using a by (auto simp: fetchKHypePositionSnapshots_def send_def report_def)
  then show ?thesis using True by simp
next
  case False
  from fetchKHypePools_ok[of poolsNet s, OF False] obtain b allPools where
    p: "fetchKHypePools poolsNet s = (Inr (filter isKHypePool allPools), send AllPoolsRequest s)"
    by blast
  have l: "length (requests (send AllPoolsRequest s)) = Suc (length (requests s))"
    by (simp add: send_def)
  have r: "requests t = requests s @
             [AllPoolsRequest,
              PositionSnapshotsRequest (map poolId (filter isKHypePool allPools)) since]"
    using a unfolding fetchKHypePositionSnapshots_def p prod.case sum.case Let_def l
    by (auto simp: send_def report_def split: reply.splits option.splits)
  have i: "isl out \<longleftrightarrow> failed (snapshotsNet (Suc (length (requests s))))"
    using a unfolding fetchKHypePositionSnapshots_def p prod.case sum.case Let_def l
    by (auto simp: failed_def transportFailed_def carriesErrors_def dataAbsent_def
          split: reply.splits option.splits)
  have e: "\<forall>e. out = Inl e \<longrightarrow>
         reported t \<noteq> [] \<and> last (reported t) = (''Error fetching position snapshots:'', e)"
    using a unfolding fetchKHypePositionSnapshots_def p prod.case sum.case Let_def l
    by (auto simp: send_def report_def split: reply.splits option.splits)
  have x: "\<forall>xs. out = Inr xs \<longrightarrow>
         reported t = reported s \<and>
         (\<exists>b. snapshotsNet (Suc (length (requests s))) = Decoded b \<and> data b = Some xs)"
    using a unfolding fetchKHypePositionSnapshots_def p prod.case sum.case Let_def l
    by (auto simp: send_def report_def split: reply.splits option.splits)
  show ?thesis using False r i e x by blast
qed

text \<open>
  Claim C9. \<^verbatim>\<open>fetchPoolInfo\<close> sends exactly one request; it fails exactly when the
  transport fails, the reply carries errors, or the pool is absent from the reply (its
  data is absent, or the pool in it is null); when it fails it reports the error once
  and raises it, and otherwise it returns the pool of the reply and reports nothing.
  \<^verbatim>\<open>fetchKHypePositionSnapshots\<close> sends one request for the pools and, unless that
  one fails, exactly one request for the snapshots; it fails exactly when one of the
  two does (the transport fails, the reply carries errors, or the data it reads is
  absent from the reply), reports the error it raises, and otherwise returns the
  snapshots of the reply.
\<close>

theorem C9_single_attempt:
  "(fetchPoolInfo net s = (res, s') \<longrightarrow>
      requests s' = requests s @ [PoolInfoRequest POOL_ID] \<and>
      (isl res \<longleftrightarrow>
         transportFailed (net (length (requests s))) \<or>
         carriesErrors (net (length (requests s))) \<or>
         poolAbsent (net (length (requests s)))) \<and>
      (\<forall>e. res = Inl e \<longrightarrow> reported s' = reported s @ [(''Error fetching pool info:'', e)]) \<and>
      (\<forall>p. res = Inr p \<longrightarrow>
         reported s' = reported s \<and>
         (\<exists>b. net (length (requests s)) = Decoded b \<and> data b = Some (Some p)))) \<and>
   (fetchKHypePositionSnapshots poolsNet snapshotsNet since s = (out, t) \<longrightarrow>
      (failed (poolsNet (length (requests s))) \<longrightarrow>
         isl out \<and> requests t = requests s @ [AllPoolsRequest]) \<and>
      (\<not> failed (poolsNet (length (requests s))) \<longrightarrow>
         (\<exists>ids. requests t = requests s @ [AllPoolsRequest, PositionSnapshotsRequest ids since]) \<and>
         (isl out \<longleftrightarrow> failed (snapshotsNet (Suc (length (requests s)))))) \<and>
      (\<forall>e. out = Inl e \<longrightarrow>
         reported t \<noteq> [] \<and> last (reported t) = (''Error fetching position snapshots:'', e)) \<and>
      (\<forall>xs. out = Inr xs \<longrightarrow>
         reported t = reported s \<and>
         (\<exists>b. snapshotsNet (Suc (length (requests s))) = Decoded b \<and> data b = Some xs)))"
proof (rule conjI; rule impI)
  assume "fetchPoolInfo net s = (res, s')"
  then show "requests s' = requests s @ [PoolInfoRequest POOL_ID] \<and>
      (isl res \<longleftrightarrow>
         transportFailed (net (length (requests s))) \<or>
         carriesErrors (net (length (requests s))) \<or>
         poolAbsent (net (length (requests s)))) \<and>
      (\<forall>e. res = Inl e \<longrightarrow> reported s' = reported s @ [(''Error fetching pool info:'', e)]) \<and>
      (\<forall>p. res = Inr p \<longrightarrow>
         reported s' = reported s \<and>
         (\<exists>b. net (length (requests s)) = Decoded b \<and> data b = Some (Some p)))"
    by (rule fetchPoolInfo_spec)
next
  assume "fetchKHypePositionSnapshots poolsNet snapshotsNet since s = (out, t)"
  then show "(failed (poolsNet (length (requests s))) \<longrightarrow>
         isl out \<and> requests t = requests s @ [AllPoolsRequest]) \<and>
      (\<not> failed (poolsNet (length (requests s))) \<longrightarrow>
         (\<exists>ids. requests t = requests s @ [AllPoolsRequest, PositionSnapshotsRequest ids since]) \<and>
         (isl out \<longleftrightarrow> failed (snapshotsNet (Suc (length (requests s)))))) \<and>
      (\<forall>e. out = Inl e \<longrightarrow>
         reported t \<noteq> [] \<and> last (reported t) = (''Error fetching position snapshots:'', e)) \<and>
      (\<forall>xs. out = Inr xs \<longrightarrow>
         reported t = reported s \<and>
         (\<exists>b. snapshotsNet (Suc (length (requests s))) = Decoded b \<and> data b = Some xs))"
    by (rule fetchKHypePositionSnapshots_spec)
qed

text \<open>
  The theorem of claim C9 at a transport that is down, and at replies without pools
  and without snapshots.
\<close>

theorem C9_witness:
  "requests (snd (fetchPoolInfo (\<lambda>n. Rejected ''down'' :: nat option reply)
                    \<lparr>requests = [], reported = []\<rparr>)) = [PoolInfoRequest POOL_ID] \<and>
   isl (fst (fetchPoolInfo (\<lambda>n. Rejected ''down'' :: nat option reply)
               \<lparr>requests = [], reported = []\<rparr>)) \<and>
   \<not> isl (fst (fetchKHypePositionSnapshots
                 (\<lambda>n. Decoded \<lparr>errors = None, data = Some []\<rparr>)
                 (\<lambda>n. Decoded \<lparr>errors = None, data = Some []\<rparr>) ''1757500000''
                 \<lparr>requests = [], reported = []\<rparr>))"
proof -
  let ?s = "\<lparr>requests = [], reported = []\<rparr>"
  let ?down = "\<lambda>n::nat. Rejected ''down'' :: nat option reply"
  let ?pools = "\<lambda>n::nat. Decoded \<lparr>errors = None, data = Some ([] :: pool list)\<rparr>"
  let ?snaps = "\<lambda>n::nat. Decoded \<lparr>errors = None, data = Some ([] :: snapshot list)\<rparr>"
  have p: "fetchPoolInfo ?down ?s = (fst (fetchPoolInfo ?down ?s), snd (fetchPoolInfo ?down ?s))"
    by simp
  have q: "fetchKHypePositionSnapshots ?pools ?snaps ''1757500000'' ?s =
           (fst (fetchKHypePositionSnapshots ?pools ?snaps ''1757500000'' ?s),
            snd (fetchKHypePositionSnapshots ?pools ?snaps ''1757500000'' ?s))"
    by simp
  have t: "transportFailed (?down (length (requests ?s)))" by (simp add: transportFailed_def)
  have ok: "\<not> failed (?pools (length (requests ?s)))" "\<not> failed (?snaps (Suc (length (requests ?s))))"
    by (simp_all add: failed_def transportFailed_def carriesErrors_def dataAbsent_def)
  note c = C9_single_attempt[of ?down ?s "fst (fetchPoolInfo ?down ?s)" "snd (fetchPoolInfo ?down ?s)"
      ?pools ?snaps "''1757500000''"
      "fst (fetchKHypePositionSnapshots ?pools ?snaps ''1757500000'' ?s)"
      "snd (fetchKHypePositionSnapshots ?pools ?snaps ''1757500000'' ?s)"]
  have "requests (snd (fetchPoolInfo ?down ?s)) = requests ?s @ [PoolInfoRequest POOL_ID]"
    "isl (fst (fetchPoolInfo ?down ?s))"
    using c p t by blast+
  moreover have "\<not> isl (fst (fetchKHypePositionSnapshots ?pools ?snaps ''1757500000'' ?s))"
    using c q ok by blast
  ultimately show ?thesis by simp
qed

section \<open>Properties of the report of a position\<close>

lemma positionTotalsFrom_sums:
  "totalDeposited0 (positionTotalsFrom t i xs) =
     foldl add (totalDeposited0 t) (map (\<lambda>s. parsedAmount (depositedToken0 s)) xs)"
  "totalDeposited1 (positionTotalsFrom t i xs) =
     foldl add (totalDeposited1 t) (map (\<lambda>s. parsedAmount (depositedToken1 s)) xs)"
  "totalWithdrawn0 (positionTotalsFrom t i xs) =
     foldl add (totalWithdrawn0 t) (map (\<lambda>s. parsedAmount (withdrawnToken0 s)) xs)"
  "totalWithdrawn1 (positionTotalsFrom t i xs) =
     foldl add (totalWithdrawn1 t) (map (\<lambda>s. parsedAmount (withdrawnToken1 s)) xs)"
  by (induction xs arbitrary: t i; simp add: addSnapshot_def Let_def)+

lemma positionTotals_sums:
  "totalDeposited0 (positionTotals g) =
     foldl add (Finite 0) (map (\<lambda>s. parsedAmount (depositedToken0 s)) g)"
  "totalDeposited1 (positionTotals g) =
     foldl add (Finite 0) (map (\<lambda>s. parsedAmount (depositedToken1 s)) g)"
  "totalWithdrawn0 (positionTotals g) =
     foldl add (Finite 0) (map (\<lambda>s. parsedAmount (withdrawnToken0 s)) g)"
  "totalWithdrawn1 (positionTotals g) =
     foldl add (Finite 0) (map (\<lambda>s. parsedAmount (withdrawnToken1 s)) g)"
  by (simp_all add: positionTotals_def positionTotalsFrom_sums noTotals_def)

text \<open>What a report holds when the function returns one.\<close>

lemma reportPosition_Inr:
  assumes "reportPosition (i, g) = Inr r"
  shows "g \<noteq> []"
    and "printSnapshots (take 5 (significantSnapshots g)) = Inr (timeline r)"
    and "reportPositionId r = i"
    and "activity r = length g"
    and "reportTotals r = positionTotals g"
    and "netToken0 r = subtract (totalDeposited0 (positionTotals g)) (totalWithdrawn0 (positionTotals g))"
    and "netToken1 r = subtract (totalDeposited1 (positionTotals g)) (totalWithdrawn1 (positionTotals g))"
    and "significantEvents r = length (significantSnapshots g)"
    and "moreEvents r =
          (if 5 < length (significantSnapshots g) then Some (length (significantSnapshots g) - 5)
           else None)"
proof -
  obtain s ss where g: "g = s # ss" using assms by (cases g) auto
  obtain ev where ev: "printSnapshots (take 5 (significantSnapshots (s # ss))) = Inr ev"
    using assms unfolding g by (cases "printSnapshots (take 5 (significantSnapshots (s # ss)))") (simp_all add: Let_def)
  have r: "r = \<lparr>reportPositionId = i, reportOwner = owner s, reportPool = pool s,
              activity = length (s # ss), reportTotals = positionTotals (s # ss),
              netToken0 = subtract (totalDeposited0 (positionTotals (s # ss)))
                            (totalWithdrawn0 (positionTotals (s # ss))),
              netToken1 = subtract (totalDeposited1 (positionTotals (s # ss)))
                            (totalWithdrawn1 (positionTotals (s # ss))),
              significantEvents = length (significantSnapshots (s # ss)),
              timeline = ev,
              moreEvents = (if length (significantSnapshots (s # ss)) > 5
                            then Some (length (significantSnapshots (s # ss)) - 5) else None)\<rparr>"
    using assms unfolding g by (simp add: Let_def ev)
  show "g \<noteq> []" by (simp add: g)
  show "printSnapshots (take 5 (significantSnapshots g)) = Inr (timeline r)"
    unfolding g by (simp add: r ev)
  show "reportPositionId r = i" "activity r = length g" "reportTotals r = positionTotals g"
    "netToken0 r = subtract (totalDeposited0 (positionTotals g)) (totalWithdrawn0 (positionTotals g))"
    "netToken1 r = subtract (totalDeposited1 (positionTotals g)) (totalWithdrawn1 (positionTotals g))"
    "significantEvents r = length (significantSnapshots g)"
    "moreEvents r =
          (if 5 < length (significantSnapshots g) then Some (length (significantSnapshots g) - 5)
           else None)"
    unfolding g by (simp_all add: r)
qed


lemma reportPosition_wellFormed:
  assumes "g \<noteq> []" "\<forall>s\<in>set g. isTimestamp (timestamp s)"
  shows "\<exists>r. reportPosition (i, g) = Inr r"
proof -
  obtain s ss where g: "g = s # ss" using assms(1) by (cases g) auto
  have "\<forall>x\<in>set (take 5 (significantSnapshots g)). isTimestamp (timestamp x)"
    using assms(2) by (auto simp: significantSnapshots_def dest: in_set_takeD)
  then have "printSnapshots (take 5 (significantSnapshots g)) = Inr (take 5 (significantSnapshots g))"
    by (rule printSnapshots_wellFormed)
  then show ?thesis unfolding g by (simp add: Let_def)
qed

lemma parseFloat_half: "parseFloat ''0.5'' = Finite (1 / 2)"
  by code_simp

lemma parseFloat_one: "parseFloat ''1'' = Finite 1"
  by code_simp

lemma example_deposits: "foldl add (Finite 0) [Finite 2, Finite 1] = Finite 3"
  by code_simp

lemma example_withdrawals: "foldl add (Finite 0) [Finite (1 / 2), Finite 0] = Finite (1 / 2)"
  by code_simp

lemma example_net: "subtract (Finite 3) (Finite (1 / 2)) = Finite (5 / 2)"
  by code_simp

lemma isTimestamp_example: "isTimestamp ''1757500000''"
  by code_simp

text \<open>
  Claim C6. For every group of snapshots of a position, when \<^verbatim>\<open>displayPositionTransactions\<close>
  reports the position, the totals deposited and withdrawn of each token are the sums
  of the parsed amounts of the group, added in its order from zero, and the net
  position of each token is the total deposited minus the total withdrawn. A report is
  produced for every group that is not empty and whose timestamps are those of the
  subgraph. The two snapshots of the example of the specification give a total
  deposited of 3, a total withdrawn of 0.5 and a net position of 2.5.
\<close>

theorem C6_net_position:
  "(reportPosition (i, g) = Inr r \<longrightarrow>
      totalDeposited0 (reportTotals r) =
        foldl add (Finite 0) (map (\<lambda>s. parsedAmount (depositedToken0 s)) g) \<and>
      totalWithdrawn0 (reportTotals r) =
        foldl add (Finite 0) (map (\<lambda>s. parsedAmount (withdrawnToken0 s)) g) \<and>
      totalDeposited1 (reportTotals r) =
        foldl add (Finite 0) (map (\<lambda>s. parsedAmount (depositedToken1 s)) g) \<and>
      totalWithdrawn1 (reportTotals r) =
        foldl add (Finite 0) (map (\<lambda>s. parsedAmount (withdrawnToken1 s)) g) \<and>
      netToken0 r = subtract (totalDeposited0 (reportTotals r)) (totalWithdrawn0 (reportTotals r)) \<and>
      netToken1 r = subtract (totalDeposited1 (reportTotals r)) (totalWithdrawn1 (reportTotals r))) \<and>
   (g \<noteq> [] \<and> list_all (\<lambda>s. isTimestamp (timestamp s)) g \<longrightarrow>
      (\<exists>r. reportPosition (i, g) = Inr r)) \<and>
   (\<exists>r. reportPosition (''1'', [exampleSnapshot ''2'' ''0.5'', exampleSnapshot ''1'' ''0'']) = Inr r \<and>
      totalDeposited0 (reportTotals r) = Finite 3 \<and>
      totalWithdrawn0 (reportTotals r) = Finite (1 / 2) \<and>
      netToken0 r = Finite (5 / 2))"
proof (intro conjI impI)
  assume r: "reportPosition (i, g) = Inr r"
  note f = reportPosition_Inr[OF r]
  show "totalDeposited0 (reportTotals r) =
        foldl add (Finite 0) (map (\<lambda>s. parsedAmount (depositedToken0 s)) g)"
    "totalWithdrawn0 (reportTotals r) =
        foldl add (Finite 0) (map (\<lambda>s. parsedAmount (withdrawnToken0 s)) g)"
    "totalDeposited1 (reportTotals r) =
        foldl add (Finite 0) (map (\<lambda>s. parsedAmount (depositedToken1 s)) g)"
    "totalWithdrawn1 (reportTotals r) =
        foldl add (Finite 0) (map (\<lambda>s. parsedAmount (withdrawnToken1 s)) g)"
    by (simp_all only: f(5) positionTotals_sums)
  show "netToken0 r = subtract (totalDeposited0 (reportTotals r)) (totalWithdrawn0 (reportTotals r))"
    "netToken1 r = subtract (totalDeposited1 (reportTotals r)) (totalWithdrawn1 (reportTotals r))"
    by (simp_all only: f(5) f(6) f(7))
next
  assume "g \<noteq> [] \<and> list_all (\<lambda>s. isTimestamp (timestamp s)) g"
  then show "\<exists>r. reportPosition (i, g) = Inr r"
    using reportPosition_wellFormed[of g i] by (simp add: list_all_iff)
next
  let ?g = "[exampleSnapshot ''2'' ''0.5'', exampleSnapshot ''1'' ''0'']"
  have ts: "\<forall>s\<in>set ?g. isTimestamp (timestamp s)"
    by (simp add: exampleSnapshot_def snapshotOf_def isTimestamp_example)
  obtain r where r: "reportPosition (''1'', ?g) = Inr r"
    using reportPosition_wellFormed[OF _ ts, of "''1''"] by auto
  note f = reportPosition_Inr[OF r]
  have d: "map (\<lambda>s. parsedAmount (depositedToken0 s)) ?g = [Finite 2, Finite 1]"
    by (simp add: exampleSnapshot_def snapshotOf_def mkSnapshot_def parsedAmount_def
          parseFloat_two parseFloat_one)
  have w: "map (\<lambda>s. parsedAmount (withdrawnToken0 s)) ?g = [Finite (1 / 2), Finite 0]"
    by (simp add: exampleSnapshot_def snapshotOf_def mkSnapshot_def parsedAmount_def
          parseFloat_half parseFloat_zero)
  have td: "totalDeposited0 (positionTotals ?g) = Finite 3"
    by (simp only: positionTotals_sums d example_deposits)
  have tw: "totalWithdrawn0 (positionTotals ?g) = Finite (1 / 2)"
    by (simp only: positionTotals_sums w example_withdrawals)
  have "totalDeposited0 (reportTotals r) = Finite 3"
    "totalWithdrawn0 (reportTotals r) = Finite (1 / 2)"
    "netToken0 r = Finite (5 / 2)"
    by (simp_all only: f(5) f(6) td tw example_net)
  with r show "\<exists>r. reportPosition (''1'', ?g) = Inr r \<and>
      totalDeposited0 (reportTotals r) = Finite 3 \<and>
      totalWithdrawn0 (reportTotals r) = Finite (1 / 2) \<and>
      netToken0 r = Finite (5 / 2)"
    by blast
qed

text \<open>The theorem of claim C6 at a group of one snapshot.\<close>

theorem C6_witness:
  "\<exists>r. reportPosition (''7'', [exampleSnapshot ''1'' ''2'']) = Inr r \<and>
     netToken0 r = subtract (totalDeposited0 (reportTotals r)) (totalWithdrawn0 (reportTotals r))"
proof -
  have "[exampleSnapshot ''1'' ''2''] \<noteq> [] \<and>
        list_all (\<lambda>s. isTimestamp (timestamp s)) [exampleSnapshot ''1'' ''2'']"
    by (simp add: exampleSnapshot_def snapshotOf_def isTimestamp_example)
  then obtain r where r: "reportPosition (''7'', [exampleSnapshot ''1'' ''2'']) = Inr r"
    using C6_net_position[of "''7''" "[exampleSnapshot ''1'' ''2'']"] by blast
  then have "netToken0 r = subtract (totalDeposited0 (reportTotals r)) (totalWithdrawn0 (reportTotals r))"
    using C6_net_position[of "''7''" "[exampleSnapshot ''1'' ''2'']" r] by blast
  with r show ?thesis by blast
qed

section \<open>Properties of the timeline\<close>






section \<open>Snapshots without a position\<close>

lemma groupByPositionId_groupInto:
  "groupByPositionId obj snapshots = groupInto positionKey obj (filter hasPositionId snapshots)"
proof (induction snapshots arbitrary: obj)
  case Nil
  show ?case by simp
next
  case (Cons s rest)
  show ?case
  proof (cases "positionIdOf s")
    case None
    then show ?thesis using Cons by (simp add: hasPositionId_def)
  next
    case (Some i)
    show ?thesis
    proof (cases "i = []")
      case True
      then show ?thesis using Some Cons by (simp add: hasPositionId_def)
    next
      case False
      then have "hasPositionId s" "positionKey s = i"
        using Some by (simp_all add: hasPositionId_def positionKey_def)
      then show ?thesis using Some False Cons by (simp split: sum.splits)
    qed
  qed
qed

lemma snapshotsByPosition_filter:
  "snapshotsByPosition (filter hasPositionId snapshots) = snapshotsByPosition snapshots"
  by (simp add: snapshotsByPosition_def groupByPositionId_groupInto)

lemma groupInto_cases:
  "groupInto key [] xs =
     (if \<exists>x\<in>set xs. key x \<in> set objectPrototypeKeys then Inl TypeError
      else Inr (groupsOf key xs))"
proof (cases "\<exists>x\<in>set xs. key x \<in> set objectPrototypeKeys")
  case True
  then show ?thesis using groupInto_TypeError[of xs key] by (simp only: if_True)
next
  case False
  then have "\<forall>x\<in>set xs. key x \<notin> set objectPrototypeKeys" by (simp only: bex_simps not_not)
  then have "groupInto key [] xs = Inr (groupsOf key xs)" by (rule groupInto_groupsOf)
  then show ?thesis using False by (simp only: if_False)
qed

lemma snapshotsByPosition_Inr:
  assumes "snapshotsByPosition snapshots = Inr obj"
  shows "obj = groupsOf positionKey (filter hasPositionId snapshots)"
proof -
  have "groupInto positionKey [] (filter hasPositionId snapshots) = Inr obj"
    using assms by (simp only: snapshotsByPosition_def groupByPositionId_groupInto)
  then show ?thesis
    unfolding groupInto_cases[of positionKey "filter hasPositionId snapshots"]
    by (simp split: if_splits)
qed

lemma hasPositionId_key: "hasPositionId s \<Longrightarrow> positionIdOf s = Some (positionKey s)"
  by (auto simp: hasPositionId_def positionKey_def split: option.splits)

text \<open>
  Claim C10. The snapshots without a position, or whose position has no id, have no
  effect on \<^verbatim>\<open>displayPositionTransactions\<close>: the grouping by position and the whole
  output (the reports with their totals, and the summary) are those of the snapshots
  that have a position id. Every member of a group is a snapshot of the input with
  the position id of the group, and the average activity is computed from the number
  of snapshots that have a position id. The grouping is also that of
  \<^verbatim>\<open>displayPositionSnapshots\<close> of the pool script.
\<close>

theorem C10_snapshots_without_position:
  "snapshotsByPosition snapshots = snapshotsByPosition (filter hasPositionId snapshots) \<and>
   displayPositionTransactions snapshots =
     displayPositionTransactions (filter hasPositionId snapshots) \<and>
   (snapshotsByPosition snapshots = Inr obj \<longrightarrow>
      (\<forall>(k, g)\<in>set obj. \<forall>s\<in>set g. s \<in> set snapshots \<and> hasPositionId s \<and> positionIdOf s = Some k)) \<and>
   (displayPositionTransactions snapshots = Inr (Positions reports summary) \<longrightarrow>
      averageActivity summary =
        averageActivityOf (length (filter hasPositionId snapshots)) (totalUniquePositions summary))"
proof (intro conjI impI)
  show g: "snapshotsByPosition snapshots = snapshotsByPosition (filter hasPositionId snapshots)"
    by (simp only: snapshotsByPosition_filter)
  have ff: "filter hasPositionId (filter hasPositionId snapshots) = filter hasPositionId snapshots"
    by simp
  show "displayPositionTransactions snapshots =
     displayPositionTransactions (filter hasPositionId snapshots)"
    unfolding displayPositionTransactions_def ff snapshotsByPosition_filter ..
next
  assume "snapshotsByPosition snapshots = Inr obj"
  then have obj: "obj = groupsOf positionKey (filter hasPositionId snapshots)"
    by (rule snapshotsByPosition_Inr)
  show "\<forall>(k, g)\<in>set obj. \<forall>s\<in>set g. s \<in> set snapshots \<and> hasPositionId s \<and> positionIdOf s = Some k"
  proof (rule ballI)
    fix kg assume kg: "kg \<in> set obj"
    obtain k g where e: "kg = (k, g)" by (cases kg)
    have "g = filter (\<lambda>s. positionKey s = k) (filter hasPositionId snapshots)"
      using kg unfolding e obj by (simp add: set_groupsOf)
    then have "\<forall>s\<in>set g. s \<in> set snapshots \<and> hasPositionId s \<and> positionIdOf s = Some k"
      using hasPositionId_key by auto
    then show "case kg of (k, g) \<Rightarrow>
        \<forall>s\<in>set g. s \<in> set snapshots \<and> hasPositionId s \<and> positionIdOf s = Some k"
      by (simp only: e prod.case)
  qed
next
  assume "displayPositionTransactions snapshots = Inr (Positions reports summary)"
  then show "averageActivity summary =
        averageActivityOf (length (filter hasPositionId snapshots)) (totalUniquePositions summary)"
    by (auto simp: displayPositionTransactions_def split: sum.splits if_splits list.splits)
qed

lemma printedPositions_nonempty:
  "printedPositions out \<noteq> [] \<Longrightarrow> \<exists>reports summary. out = Inr (Positions reports summary)"
  by (auto simp: printedPositions_def split: sum.splits transactionsOutput.splits)

text \<open>
  The theorem of claim C10 at a snapshot of position 7 followed by a snapshot without
  a position: one position, one snapshot counted.
\<close>

theorem C10_witness:
  "displayPositionTransactions
      [snapshotOf ''0xc06e'' ''0xa1'' (Some ''7''), snapshotOf ''0xc06e'' ''0xa1'' None] =
   displayPositionTransactions [snapshotOf ''0xc06e'' ''0xa1'' (Some ''7'')] \<and>
   (\<exists>reports summary.
      displayPositionTransactions
        [snapshotOf ''0xc06e'' ''0xa1'' (Some ''7''), snapshotOf ''0xc06e'' ''0xa1'' None] =
        Inr (Positions reports summary) \<and>
      averageActivity summary = ''1.0'')"
proof -
  let ?a = "snapshotOf ''0xc06e'' ''0xa1'' (Some ''7'')"
  let ?b = "snapshotOf ''0xc06e'' ''0xa1'' None"
  have f: "filter hasPositionId [?a, ?b] = [?a]"
    by (simp add: hasPositionId_def positionIdOf_def snapshotOf_def mkSnapshot_def)
  have e: "displayPositionTransactions [?a, ?b] = displayPositionTransactions [?a]"
    using C10_snapshots_without_position[of "[?a, ?b]"] by (simp only: f)
  have "printedPositions (displayPositionTransactions [?a]) = [(''7'', 1)]" by code_simp
  then have "printedPositions (displayPositionTransactions [?a, ?b]) \<noteq> []" by (simp add: e)
  then obtain reports summary
    where o: "displayPositionTransactions [?a, ?b] = Inr (Positions reports summary)"
    using printedPositions_nonempty by blast
  note c = C10_snapshots_without_position[of "[?a, ?b]" _ reports summary, unfolded f]
  have "averageActivity summary = averageActivityOf (length [?a]) (totalUniquePositions summary)"
    using c o by blast
  then have av: "averageActivity summary = averageActivityOf 1 (totalUniquePositions summary)"
    by simp
  have "totalUniquePositions summary = 1"
  proof -
    have "snapshotsByPosition [?a] = Inr [(''7'', [?a])]" by code_simp
    moreover have "snapshotsByPosition [?a, ?b] = snapshotsByPosition [?a]"
      using c by blast
    ultimately have "snapshotsByPosition [?a, ?b] = Inr [(''7'', [?a])]"
      by simp
    then show ?thesis
      using o by (auto simp: displayPositionTransactions_def sortedPositions_def entries_def
            split: sum.splits if_splits list.splits)
  qed
  moreover have "averageActivityOf 1 1 = ''1.0''" by code_simp
  ultimately have "averageActivity summary = ''1.0''" using av by simp
  with e o show ?thesis by blast
qed

section \<open>Properties of the order of the positions\<close>

lemma map_fst_insort_key:
  "map fst (insort_key (\<lambda>(k, v). f k) x xs) = insort_key f (fst x) (map fst xs)"
  by (induction xs) (auto simp: split_beta)

lemma map_fst_sort_key:
  "map fst (sort_key (\<lambda>(k, v). f k) xs) = sort_key f (map fst xs)"
  by (induction xs) (simp_all add: map_fst_insort_key)

lemma keys_entries: "map fst (entries obj) = entryOrder (map fst obj)"
proof -
  have a: "map fst (filter (\<lambda>(k, v). isArrayIndex k) obj) = filter isArrayIndex (map fst obj)"
    by (induction obj) auto
  have b: "map fst (filter (\<lambda>(k, v). \<not> isArrayIndex k) obj) =
           filter (\<lambda>k. \<not> isArrayIndex k) (map fst obj)"
    by (induction obj) auto
  show ?thesis by (simp add: entries_def entryOrder_def map_fst_sort_key a b)
qed

lemma sortedPositions_sorted:
  "sorted_wrt (\<lambda>a b. length (snd b) \<le> length (snd a)) (sortedPositions obj)"
proof -
  have "sorted (map (\<lambda>(k, g). - int (length g)) (sortedPositions obj))"
    unfolding sortedPositions_def by (rule sorted_sort_key)
  then show ?thesis by (simp add: sorted_map split_beta)
qed

lemma sortedPositions_stable:
  "filter (\<lambda>e. length (snd e) = n) (sortedPositions obj) =
   filter (\<lambda>e. length (snd e) = n) (entries obj)"
proof -
  have "filter (\<lambda>e. (\<lambda>(k, g). - int (length g)) e = - int n) (sortedPositions obj) =
        filter (\<lambda>e. (\<lambda>(k, g). - int (length g)) e = - int n) (entries obj)"
    unfolding sortedPositions_def by (rule sort_key_stable)
  then show ?thesis by (simp add: split_beta)
qed

lemma reportPositions_Inr:
  "reportPositions gs = Inr rs \<Longrightarrow>
   map (\<lambda>r. (reportPositionId r, activity r)) rs = map (\<lambda>e. (fst e, length (snd e))) gs"
proof (induction gs arbitrary: rs)
  case Nil
  then show ?case by simp
next
  case (Cons g gs)
  obtain i ss where g: "g = (i, ss)" by (cases g)
  from Cons.prems obtain r rs' where r: "reportPosition (i, ss) = Inr r"
    and rs': "reportPositions gs = Inr rs'" and rs: "rs = r # rs'"
    unfolding g by (auto split: sum.splits)
  have "reportPositionId r = i" "activity r = length ss"
    using reportPosition_Inr[OF r] by simp_all
  then show ?case using Cons.IH[OF rs'] by (simp add: rs g)
qed

lemma printedPositions_Inr:
  assumes "displayPositionTransactions snapshots = Inr (Positions reports summary)"
  shows "\<exists>byPosition. snapshotsByPosition snapshots = Inr byPosition \<and>
           map (\<lambda>r. (reportPositionId r, activity r)) reports =
             map (\<lambda>e. (fst e, length (snd e))) (sortedPositions byPosition)"
proof -
  from assms obtain byPosition where b: "snapshotsByPosition snapshots = Inr byPosition"
    and r: "reportPositions (sortedPositions byPosition) = Inr reports"
    by (auto simp: displayPositionTransactions_def split: sum.splits if_splits list.splits)
  show ?thesis using b reportPositions_Inr[OF r] by blast
qed

lemma reportRecents_Inr:
  "reportRecents gs = Inr rs \<Longrightarrow>
   map (\<lambda>r. (recentPositionId r, recentCount r)) rs = map (\<lambda>e. (fst e, length (snd e))) gs"
proof (induction gs arbitrary: rs)
  case Nil
  then show ?case by simp
next
  case (Cons g gs)
  obtain i ss where g: "g = (i, ss)" by (cases g)
  from Cons.prems obtain r rs' where r: "reportRecent (i, ss) = Inr r"
    and rs': "reportRecents gs = Inr rs'" and rs: "rs = r # rs'"
    unfolding g by (auto split: sum.splits)
  have "recentPositionId r = i \<and> recentCount r = length ss"
    using r by (cases ss) (auto simp: Let_def split: sum.splits)
  then show ?case using Cons.IH[OF rs'] by (simp add: rs g)
qed

lemma printedRecents_Inr:
  assumes "displayPoolPositionSnapshots snapshots = Inr (RecentSnapshots reports summary)"
  shows "\<exists>byPosition. snapshotsByPosition snapshots = Inr byPosition \<and>
           map (\<lambda>r. (recentPositionId r, recentCount r)) reports =
             map (\<lambda>e. (fst e, length (snd e))) (sortedPositions byPosition)"
proof -
  from assms obtain byPosition where b: "snapshotsByPosition snapshots = Inr byPosition"
    and r: "reportRecents (sortedPositions byPosition) = Inr reports"
    by (auto simp: displayPoolPositionSnapshots_def split: sum.splits if_splits)
  show ?thesis using b reportRecents_Inr[OF r] by blast
qed

lemma sortedPositions_order:
  assumes b: "snapshotsByPosition snapshots = Inr byPosition"
    and pp: "printed = map (\<lambda>e. (fst e, length (snd e))) (sortedPositions byPosition)"
  shows "sorted_wrt (\<lambda>a b. snd b \<le> snd a) printed \<and>
     (\<exists>byPosition. snapshotsByPosition snapshots = Inr byPosition \<and>
        (\<forall>n. filter (\<lambda>e. snd e = n) printed =
              filter (\<lambda>e. snd e = n) (map (\<lambda>e. (fst e, length (snd e))) (entries byPosition))) \<and>
        map fst (entries byPosition) =
          entryOrder (firstOccurrences (map positionKey (filter hasPositionId snapshots))))"
proof -
  have s: "sorted_wrt (\<lambda>a b. snd b \<le> snd a) printed"
    unfolding pp using sortedPositions_sorted[of byPosition] by (simp add: sorted_wrt_map)
  have t: "filter (\<lambda>e. snd e = n) printed =
           filter (\<lambda>e. snd e = n) (map (\<lambda>e. (fst e, length (snd e))) (entries byPosition))" for n
    unfolding pp using sortedPositions_stable[of n byPosition]
    by (simp add: filter_map comp_def)
  have "byPosition = groupsOf positionKey (filter hasPositionId snapshots)"
    using b by (rule snapshotsByPosition_Inr)
  then have k: "map fst (entries byPosition) =
          entryOrder (firstOccurrences (map positionKey (filter hasPositionId snapshots)))"
    by (simp add: keys_entries keys_groupsOf)
  show ?thesis using s b t k by blast
qed

text \<open>
  Claim C7, as the code has it. In \<^verbatim>\<open>displayPositionTransactions\<close>, and in
  \<^verbatim>\<open>displayPositionSnapshots\<close> of the pool script, the positions are printed in
  descending order of their number of snapshots, and positions with the same number
  keep the order in which \<^verbatim>\<open>Object.entries\<close> lists the grouping object: first the
  position ids that are array indices (canonical decimal integers below \<open>2 ^ 32 - 1\<close>)
  in ascending numeric order, then the other ids in the order of their first snapshot.
\<close>

theorem C7_order_of_positions:
  "(displayPositionTransactions snapshots = Inr (Positions reports summary) \<longrightarrow>
      sorted_wrt (\<lambda>a b. snd b \<le> snd a)
        (printedPositions (displayPositionTransactions snapshots)) \<and>
      (\<exists>byPosition. snapshotsByPosition snapshots = Inr byPosition \<and>
         (\<forall>n. filter (\<lambda>e. snd e = n) (printedPositions (displayPositionTransactions snapshots)) =
               filter (\<lambda>e. snd e = n) (map (\<lambda>e. (fst e, length (snd e))) (entries byPosition))) \<and>
         map fst (entries byPosition) =
           entryOrder (firstOccurrences (map positionKey (filter hasPositionId snapshots))))) \<and>
   (displayPoolPositionSnapshots snapshots = Inr (RecentSnapshots recents recentSummary) \<longrightarrow>
      sorted_wrt (\<lambda>a b. snd b \<le> snd a)
        (printedRecents (displayPoolPositionSnapshots snapshots)) \<and>
      (\<exists>byPosition. snapshotsByPosition snapshots = Inr byPosition \<and>
         (\<forall>n. filter (\<lambda>e. snd e = n) (printedRecents (displayPoolPositionSnapshots snapshots)) =
               filter (\<lambda>e. snd e = n) (map (\<lambda>e. (fst e, length (snd e))) (entries byPosition))) \<and>
         map fst (entries byPosition) =
           entryOrder (firstOccurrences (map positionKey (filter hasPositionId snapshots)))))"
proof (rule conjI; rule impI)
  assume out: "displayPositionTransactions snapshots = Inr (Positions reports summary)"
  from printedPositions_Inr[OF out] obtain byPosition
    where b: "snapshotsByPosition snapshots = Inr byPosition"
      and m: "map (\<lambda>r. (reportPositionId r, activity r)) reports =
              map (\<lambda>e. (fst e, length (snd e))) (sortedPositions byPosition)"
    by blast
  have pp: "printedPositions (displayPositionTransactions snapshots) =
            map (\<lambda>e. (fst e, length (snd e))) (sortedPositions byPosition)"
    by (simp add: printedPositions_def out m)
  show "sorted_wrt (\<lambda>a b. snd b \<le> snd a)
        (printedPositions (displayPositionTransactions snapshots)) \<and>
      (\<exists>byPosition. snapshotsByPosition snapshots = Inr byPosition \<and>
         (\<forall>n. filter (\<lambda>e. snd e = n) (printedPositions (displayPositionTransactions snapshots)) =
               filter (\<lambda>e. snd e = n) (map (\<lambda>e. (fst e, length (snd e))) (entries byPosition))) \<and>
         map fst (entries byPosition) =
           entryOrder (firstOccurrences (map positionKey (filter hasPositionId snapshots))))"
    using b pp by (rule sortedPositions_order)
next
  assume out: "displayPoolPositionSnapshots snapshots = Inr (RecentSnapshots recents recentSummary)"
  from printedRecents_Inr[OF out] obtain byPosition
    where b: "snapshotsByPosition snapshots = Inr byPosition"
      and m: "map (\<lambda>r. (recentPositionId r, recentCount r)) recents =
              map (\<lambda>e. (fst e, length (snd e))) (sortedPositions byPosition)"
    by blast
  have pp: "printedRecents (displayPoolPositionSnapshots snapshots) =
            map (\<lambda>e. (fst e, length (snd e))) (sortedPositions byPosition)"
    by (simp add: printedRecents_def out m)
  show "sorted_wrt (\<lambda>a b. snd b \<le> snd a)
        (printedRecents (displayPoolPositionSnapshots snapshots)) \<and>
      (\<exists>byPosition. snapshotsByPosition snapshots = Inr byPosition \<and>
         (\<forall>n. filter (\<lambda>e. snd e = n) (printedRecents (displayPoolPositionSnapshots snapshots)) =
               filter (\<lambda>e. snd e = n) (map (\<lambda>e. (fst e, length (snd e))) (entries byPosition))) \<and>
         map fst (entries byPosition) =
           entryOrder (firstOccurrences (map positionKey (filter hasPositionId snapshots))))"
    using b pp by (rule sortedPositions_order)
qed

lemma printedRecents_nonempty:
  "printedRecents out \<noteq> [] \<Longrightarrow> \<exists>reports summary. out = Inr (RecentSnapshots reports summary)"
  by (auto simp: printedRecents_def split: sum.splits recentOutput.splits)

text \<open>
  The theorem of claim C7 at five snapshots of the positions b, a, 10, 9 and a again,
  for both functions.
\<close>

theorem C7_witness:
  "printedPositions (displayPositionTransactions
      [snapshotOf ''0xc06e'' ''0xa1'' (Some ''b''), snapshotOf ''0xc06e'' ''0xa1'' (Some ''a''),
       snapshotOf ''0xc06e'' ''0xa1'' (Some ''10''), snapshotOf ''0xc06e'' ''0xa1'' (Some ''9''),
       snapshotOf ''0xc06e'' ''0xa1'' (Some ''a'')]) =
     [(''a'', 2), (''9'', 1), (''10'', 1), (''b'', 1)] \<and>
   sorted_wrt (\<lambda>a b. snd b \<le> snd a)
     (printedPositions (displayPositionTransactions
      [snapshotOf ''0xc06e'' ''0xa1'' (Some ''b''), snapshotOf ''0xc06e'' ''0xa1'' (Some ''a''),
       snapshotOf ''0xc06e'' ''0xa1'' (Some ''10''), snapshotOf ''0xc06e'' ''0xa1'' (Some ''9''),
       snapshotOf ''0xc06e'' ''0xa1'' (Some ''a'')])) \<and>
   printedRecents (displayPoolPositionSnapshots
      [snapshotOf ''0xc06e'' ''0xa1'' (Some ''b''), snapshotOf ''0xc06e'' ''0xa1'' (Some ''a''),
       snapshotOf ''0xc06e'' ''0xa1'' (Some ''10''), snapshotOf ''0xc06e'' ''0xa1'' (Some ''9''),
       snapshotOf ''0xc06e'' ''0xa1'' (Some ''a'')]) =
     [(''a'', 2), (''9'', 1), (''10'', 1), (''b'', 1)] \<and>
   sorted_wrt (\<lambda>a b. snd b \<le> snd a)
     (printedRecents (displayPoolPositionSnapshots
      [snapshotOf ''0xc06e'' ''0xa1'' (Some ''b''), snapshotOf ''0xc06e'' ''0xa1'' (Some ''a''),
       snapshotOf ''0xc06e'' ''0xa1'' (Some ''10''), snapshotOf ''0xc06e'' ''0xa1'' (Some ''9''),
       snapshotOf ''0xc06e'' ''0xa1'' (Some ''a'')]))"
proof -
  let ?xs = "[snapshotOf ''0xc06e'' ''0xa1'' (Some ''b''), snapshotOf ''0xc06e'' ''0xa1'' (Some ''a''),
       snapshotOf ''0xc06e'' ''0xa1'' (Some ''10''), snapshotOf ''0xc06e'' ''0xa1'' (Some ''9''),
       snapshotOf ''0xc06e'' ''0xa1'' (Some ''a'')]"
  have p: "printedPositions (displayPositionTransactions ?xs) =
           [(''a'', 2), (''9'', 1), (''10'', 1), (''b'', 1)]"
    by code_simp
  then have "printedPositions (displayPositionTransactions ?xs) \<noteq> []" by simp
  then obtain reports summary
    where "displayPositionTransactions ?xs = Inr (Positions reports summary)"
    using printedPositions_nonempty by blast
  then have a: "sorted_wrt (\<lambda>a b. snd b \<le> snd a)
                  (printedPositions (displayPositionTransactions ?xs))"
    using C7_order_of_positions[of ?xs reports summary] by blast
  have q: "printedRecents (displayPoolPositionSnapshots ?xs) =
           [(''a'', 2), (''9'', 1), (''10'', 1), (''b'', 1)]"
    by code_simp
  then have "printedRecents (displayPoolPositionSnapshots ?xs) \<noteq> []" by simp
  then obtain recents recentSummary
    where "displayPoolPositionSnapshots ?xs = Inr (RecentSnapshots recents recentSummary)"
    using printedRecents_nonempty by blast
  then have b: "sorted_wrt (\<lambda>a b. snd b \<le> snd a)
                  (printedRecents (displayPoolPositionSnapshots ?xs))"
    using C7_order_of_positions[of ?xs _ _ recents recentSummary] by blast
  from p a q b show ?thesis by blast
qed

text \<open>
  Claim C7 as stated fails for position ids that are decimal integers, as the ids of
  the positions of a pool are: of two positions with one snapshot each, grouped in the
  order 2 then 1, position 1 is printed first, by both functions.
\<close>

theorem C7_counterexample:
  "printedPositions (displayPositionTransactions
      [snapshotOf ''0xc06e'' ''0xa1'' (Some ''2''), snapshotOf ''0xc06e'' ''0xa1'' (Some ''1'')]) =
     [(''1'', 1), (''2'', 1)] \<and>
   printedRecents (displayPoolPositionSnapshots
      [snapshotOf ''0xc06e'' ''0xa1'' (Some ''2''), snapshotOf ''0xc06e'' ''0xa1'' (Some ''1'')]) =
     [(''1'', 1), (''2'', 1)] \<and>
   firstOccurrences (map positionKey
      [snapshotOf ''0xc06e'' ''0xa1'' (Some ''2''), snapshotOf ''0xc06e'' ''0xa1'' (Some ''1'')]) =
     [''2'', ''1'']"
  by code_simp

end
